theory Spec2Isabelle
  imports Complex_Main "HOL-Library.Word" "HOL-Library.Sublist"
begin

section \<open>Python and NumPy values used by \<^verbatim>\<open>streamlit_andromeda.py\<close>\<close>

text \<open>
  Exceptions are values: a call that can raise returns \<open>py_error + 'a\<close>, with \<open>Inl\<close>
  the exception. Every exception carries its message, which \<^verbatim>\<open>str(e)\<close> reads.
\<close>

datatype py_error =
    ValueError string
  | IndexError string
  | OSError string
  | Cv2Error string

fun str_exc :: "py_error \<Rightarrow> string" where
  "str_exc (ValueError msg) = msg"
| "str_exc (IndexError msg) = msg"
| "str_exc (OSError msg) = msg"
| "str_exc (Cv2Error msg) = msg"

text \<open>
  A floating-point number is its exact real value, an infinity or NaN. The program only
  copies, compares and prints the scores of the classifier (and divides a byte by 255),
  so no rounding of arithmetic results is involved in what is proved about them; the
  sign of zero is not represented.
\<close>

datatype pyfloat = Finite real | PosInf | NegInf | NaN

text \<open>Python's \<^verbatim>\<open>a >= b\<close> on floats: every comparison with NaN is false.\<close>

fun float_ge :: "pyfloat \<Rightarrow> pyfloat \<Rightarrow> bool" where
  "float_ge NaN b = False"
| "float_ge a NaN = False"
| "float_ge PosInf b = True"
| "float_ge a NegInf = True"
| "float_ge (Finite a) (Finite b) = (b \<le> a)"
| "float_ge (Finite a) PosInf = False"
| "float_ge NegInf b = False"

text \<open>\<^verbatim>\<open>np.maximum\<close> of two numbers: NaN propagates.\<close>

definition np_maximum :: "pyfloat \<Rightarrow> pyfloat \<Rightarrow> pyfloat" where
  "np_maximum a b = (if a = NaN \<or> b = NaN then NaN else if float_ge a b then a else b)"

text \<open>\<^verbatim>\<open>np.max\<close> of a vector; it raises ValueError on an empty one.\<close>

definition np_max :: "pyfloat list \<Rightarrow> py_error + pyfloat" where
  "np_max xs =
     (case xs of
        [] \<Rightarrow> Inl (ValueError ''zero-size array to reduction operation maximum which has no identity'')
      | x # rest \<Rightarrow> Inr (foldl np_maximum x rest))"

fun index_of :: "'a \<Rightarrow> 'a list \<Rightarrow> nat" where
  "index_of v [] = 0"
| "index_of v (x # xs) = (if x = v then 0 else Suc (index_of v xs))"

text \<open>
  \<^verbatim>\<open>np.argmax\<close>: the index of the first occurrence of the maximum (of the first NaN
  when there is one, since the maximum is NaN then).
\<close>

definition np_argmax :: "pyfloat list \<Rightarrow> py_error + nat" where
  "np_argmax xs =
     (case np_max xs of
        Inl e \<Rightarrow> Inl (ValueError ''attempt to get argmax of an empty sequence'')
      | Inr m \<Rightarrow> Inr (index_of m xs))"

text \<open>Indexing with a non-negative index: \<^verbatim>\<open>xs[i]\<close> raises IndexError out of range.\<close>

definition getitem :: "'a list \<Rightarrow> nat \<Rightarrow> py_error + 'a" where
  "getitem xs i = (if i < length xs then Inr (xs ! i) else Inl (IndexError ''index out of range''))"

text \<open>
  A slice \<^verbatim>\<open>xs[a:b]\<close>: a negative bound counts from the end, every bound is clamped
  to the length, and the slice is empty when the bounds cross.
\<close>

definition slice_bound :: "nat \<Rightarrow> int \<Rightarrow> nat" where
  "slice_bound n i = (if i < 0 then nat (max 0 (int n + i)) else min n (nat i))"

definition py_slice :: "'a list \<Rightarrow> int \<Rightarrow> int \<Rightarrow> 'a list" where
  "py_slice xs a b =
     (let lo = slice_bound (length xs) a; hi = slice_bound (length xs) b
      in take (hi - lo) (drop lo xs))"

section \<open>Images and the OpenCV functions the program calls\<close>

text \<open>
  A frame is a NumPy array of shape (height, width, channels) and dtype uint8: rows of
  pixels of bytes. A grayscale image has one byte per pixel. A tensor is the batched
  float array handed to the classifier.
\<close>

type_synonym pixel = "8 word list"
type_synonym frame = "pixel list list"
type_synonym gray = "8 word list list"
type_synonym tensor = "pyfloat list list list list"
type_synonym point = "int \<times> int"
type_synonym box = "int \<times> int \<times> int \<times> int"
type_synonym color = "int \<times> int \<times> int"
type_synonym contour = "point list"

definition has_shape :: "nat \<Rightarrow> nat \<Rightarrow> nat \<Rightarrow> 'a list list list \<Rightarrow> bool" where
  "has_shape h w c img \<longleftrightarrow>
     length img = h \<and> (\<forall>row \<in> set img. length row = w \<and> (\<forall>px \<in> set row. length px = c))"

definition has_shape4 :: "nat \<Rightarrow> nat \<Rightarrow> nat \<Rightarrow> nat \<Rightarrow> 'a list list list list \<Rightarrow> bool" where
  "has_shape4 n h w c t \<longleftrightarrow> length t = n \<and> (\<forall>img \<in> set t. has_shape h w c img)"

text \<open>The two drawing calls, as data: \<^verbatim>\<open>cv2.rectangle(img, pt1, pt2, color, thickness)\<close>
  and \<^verbatim>\<open>cv2.putText(img, text, org, fontFace, fontScale, color, thickness)\<close>.\<close>

datatype draw_call =
    Rectangle point point color int
  | PutText string point int real color int

text \<open>
  OpenCV is not part of the repository: its functions are parameters of the model, one
  field for each call the program makes. The segmentation and resizing functions can
  raise (\<^verbatim>\<open>cv2.error\<close>) on arrays they do not accept.
  \<^item> \<open>cvtColor_BGR2GRAY img\<close> is \<^verbatim>\<open>cv2.cvtColor(img, cv2.COLOR_BGR2GRAY)\<close>;
  \<^item> \<open>GaussianBlur_5x5 g\<close> is \<^verbatim>\<open>cv2.GaussianBlur(g, (5, 5), 0)\<close>;
  \<^item> \<open>threshold_otsu g\<close> is
    \<^verbatim>\<open>cv2.threshold(g, 0, 255, cv2.THRESH_BINARY + cv2.THRESH_OTSU)\<close>;
  \<^item> \<open>findContours_external g\<close> is the first component of
    \<^verbatim>\<open>cv2.findContours(g, cv2.RETR_EXTERNAL, cv2.CHAIN_APPROX_SIMPLE)\<close>;
  \<^item> \<open>boundingRect c\<close> is \<^verbatim>\<open>cv2.boundingRect(c)\<close>;
  \<^item> \<open>resize img (w, h)\<close> is \<^verbatim>\<open>cv2.resize(img, (w, h))\<close>;
  \<^item> \<open>draw img call\<close> is the content of the array \<open>img\<close> after the drawing call,
    which writes into the array it is given;
  \<^item> \<open>getTextSize txt font scale thickness\<close> is \<^verbatim>\<open>cv2.getTextSize\<close>;
  \<^item> \<open>cvtColor_BGR2RGB img\<close> is \<^verbatim>\<open>cv2.cvtColor(img, cv2.COLOR_BGR2RGB)\<close>.
\<close>

record cv2 =
  cvtColor_BGR2GRAY :: "frame \<Rightarrow> py_error + gray"
  GaussianBlur_5x5 :: "gray \<Rightarrow> py_error + gray"
  threshold_otsu :: "gray \<Rightarrow> py_error + (real \<times> gray)"
  findContours_external :: "gray \<Rightarrow> py_error + contour list"
  boundingRect :: "contour \<Rightarrow> py_error + box"
  resize :: "frame \<Rightarrow> int \<times> int \<Rightarrow> py_error + frame"
  draw :: "frame \<Rightarrow> draw_call \<Rightarrow> frame"
  getTextSize :: "string \<Rightarrow> int \<Rightarrow> real \<Rightarrow> int \<Rightarrow> (int \<times> int) \<times> int"
  cvtColor_BGR2RGB :: "frame \<Rightarrow> py_error + frame"

section \<open>The program\<close>

subsection \<open>Constants\<close>

definition DETECTION_COLORS :: "(string \<times> color) list" where
  "DETECTION_COLORS =
     [(''karbohidrat'', (255, 0, 0)),
      (''protein'', (0, 255, 0)),
      (''buah'', (0, 0, 255)),
      (''sayur'', (255, 255, 0)),
      (''minuman'', (255, 0, 255))]"

definition CLASS_NAMES :: "string list" where
  "CLASS_NAMES = [''karbohidrat'', ''protein'', ''buah'', ''sayur'', ''minuman'']"

definition CONFIDENCE_THRESHOLD :: pyfloat where
  "CONFIDENCE_THRESHOLD = Finite (1 / 2)"

subsection \<open>\<^verbatim>\<open>get_region_proposals\<close>\<close>

text \<open>The loop over the contours, with the list \<open>regions\<close> it appends to.\<close>

fun region_loop :: "cv2 \<Rightarrow> contour list \<Rightarrow> box list \<Rightarrow> py_error + box list" where
  "region_loop cv [] regions = Inr regions"
| "region_loop cv (contour # contours) regions =
     (case boundingRect cv contour of
        Inl e \<Rightarrow> Inl e
      | Inr (x, y, w, h) \<Rightarrow>
          if w > 50 \<and> h > 50 then region_loop cv contours (regions @ [(x, y, w, h)])
          else region_loop cv contours regions)"

definition get_region_proposals :: "cv2 \<Rightarrow> frame \<Rightarrow> py_error + box list" where
  "get_region_proposals cv img =
     (case cvtColor_BGR2GRAY cv img of
        Inl e \<Rightarrow> Inl e
      | Inr gray \<Rightarrow>
     (case GaussianBlur_5x5 cv gray of
        Inl e \<Rightarrow> Inl e
      | Inr blur \<Rightarrow>
     (case threshold_otsu cv blur of
        Inl e \<Rightarrow> Inl e
      | Inr (t, thresh) \<Rightarrow>
     (case findContours_external cv thresh of
        Inl e \<Rightarrow> Inl e
      | Inr contours \<Rightarrow> region_loop cv contours []))))"

subsection \<open>\<^verbatim>\<open>preprocess_frame\<close>\<close>

text \<open>
  \<^verbatim>\<open>astype("float32") / 255.0\<close> turns each byte \<open>v\<close> into the float nearest to
  \<open>v / 255\<close>; the model keeps the exact quotient (rounding to nearest is monotone and
  0 and 1 are floats, so the bounds proved of the quotient hold of the float).
  \<^verbatim>\<open>np.expand_dims(_, axis=0)\<close> wraps the array in a batch of one. The default of
  \<^verbatim>\<open>target_size\<close> is \<open>(224, 224)\<close>: the only call of the program passes no other.
\<close>

definition preprocess_frame :: "cv2 \<Rightarrow> frame \<Rightarrow> int \<times> int \<Rightarrow> py_error + tensor" where
  "preprocess_frame cv frame target_size' =
     (case resize cv frame target_size' of
        Inl e \<Rightarrow> Inl e
      | Inr processed_frame \<Rightarrow>
          Inr [map (map (map (\<lambda>v. Finite (real (unat v) / 255)))) processed_frame])"

subsection \<open>\<^verbatim>\<open>draw_detection_boxes\<close>\<close>

text \<open>
  A detection is the dictionary with the keys \<^verbatim>\<open>'box'\<close>, \<^verbatim>\<open>'confidence'\<close> and
  \<^verbatim>\<open>'class'\<close>.
\<close>

record detection =
  box :: box
  confidence :: pyfloat
  class_name :: string

text \<open>
  The format \<^verbatim>\<open>{confidence:.2f}\<close>: Python prints the decimal with two fractional
  digits nearest to the exact value of the float, a tie going to the even neighbour,
  with a minus sign for a negative value, and \<^verbatim>\<open>nan\<close>, \<^verbatim>\<open>inf\<close>, \<^verbatim>\<open>-inf\<close> for
  the special values.
\<close>

definition round_half_even :: "real \<Rightarrow> int" where
  "round_half_even x =
     (let f = \<lfloor>x\<rfloor>; d = x - of_int f
      in if d < 1 / 2 then f else if 1 / 2 < d then f + 1 else if even f then f else f + 1)"

definition digit :: "nat \<Rightarrow> char" where
  "digit d = ''0123456789'' ! d"

fun str_nat :: "nat \<Rightarrow> string" where
  "str_nat n = (if n < 10 then [digit n] else str_nat (n div 10) @ [digit (n mod 10)])"

definition format_2f :: "pyfloat \<Rightarrow> string" where
  "format_2f v =
     (case v of
        NaN \<Rightarrow> ''nan''
      | PosInf \<Rightarrow> ''inf''
      | NegInf \<Rightarrow> ''-inf''
      | Finite r \<Rightarrow>
          (let n = nat (round_half_even (\<bar>r\<bar> * 100))
           in (if r < 0 then ''-'' else []) @ str_nat (n div 100) @ ''.'' @
              [digit (n mod 100 div 10), digit (n mod 10)]))"

definition FONT_HERSHEY_SIMPLEX :: int where
  "FONT_HERSHEY_SIMPLEX = 0"

text \<open>
  The body of the loop over the detections makes three drawing calls on
  \<^verbatim>\<open>image_with_boxes\<close>: the bounding box, the filled label background, the label.
  \<^verbatim>\<open>DETECTION_COLORS.get(class_name, (0, 255, 0))\<close> is the lookup with its default.
\<close>

definition box_calls :: "cv2 \<Rightarrow> detection \<Rightarrow> draw_call list" where
  "box_calls cv det =
     (case box det of
        (x, y, w, h) \<Rightarrow>
          (let color = (case map_of DETECTION_COLORS (class_name det) of
                          Some c \<Rightarrow> c
                        | None \<Rightarrow> (0, 255, 0));
               label = class_name det @ '': '' @ format_2f (confidence det)
           in case getTextSize cv label FONT_HERSHEY_SIMPLEX (1 / 2) 2 of
                ((label_w, label_h), baseline) \<Rightarrow>
                  [Rectangle (x, y) (x + w, y + h) color 2,
                   Rectangle (x, y - label_h - 10) (x + label_w, y) color (- 1),
                   PutText label (x, y - 5) FONT_HERSHEY_SIMPLEX (1 / 2) (255, 255, 255) 2]))"

text \<open>
  Arrays are objects: a variable holds the address of an array in a store, and a
  drawing call writes into the array at the address it is given. The store is a list of
  array contents, an address an index into it; \<^verbatim>\<open>image.copy()\<close> allocates a new
  array. An address the program holds is always one of the store.
\<close>

type_synonym heap = "frame list"

definition np_copy :: "heap \<Rightarrow> nat \<Rightarrow> nat \<times> heap" where
  "np_copy hp a = (length hp, hp @ [hp ! a])"

definition cv2_draw :: "cv2 \<Rightarrow> heap \<Rightarrow> nat \<Rightarrow> draw_call \<Rightarrow> heap" where
  "cv2_draw cv hp a call = hp[a := draw cv (hp ! a) call]"

fun draw_loop :: "cv2 \<Rightarrow> heap \<Rightarrow> nat \<Rightarrow> detection list \<Rightarrow> heap" where
  "draw_loop cv hp a [] = hp"
| "draw_loop cv hp a (det # detections) =
     draw_loop cv (foldl (\<lambda>hp' call. cv2_draw cv hp' a call) hp (box_calls cv det)) a detections"

definition draw_detection_boxes :: "cv2 \<Rightarrow> heap \<Rightarrow> nat \<Rightarrow> detection list \<Rightarrow> nat \<times> heap" where
  "draw_detection_boxes cv hp img detections =
     (case np_copy hp img of
        (image_with_boxes, hp') \<Rightarrow>
          (image_with_boxes, draw_loop cv hp' image_with_boxes detections))"

subsection \<open>\<^verbatim>\<open>detect_objects\<close>\<close>

text \<open>
  The classifier is an object too: \<^verbatim>\<open>model.predict\<close> is a parameter that takes the
  state of the model and the tensor, and returns what the call returns or raises
  together with the state the model is left in. Its result is a batch of score vectors.
\<close>

type_synonym 'm predict = "'m \<Rightarrow> tensor \<Rightarrow> (py_error + pyfloat list list) \<times> 'm"

text \<open>\<^verbatim>\<open>image[y:y+h, x:x+w]\<close>\<close>

definition crop :: "frame \<Rightarrow> box \<Rightarrow> frame" where
  "crop img b =
     (case b of (x, y, w, h) \<Rightarrow> map (\<lambda>row. py_slice row x (x + w)) (py_slice img y (y + h)))"

text \<open>
  The body of the loop for one region: the exception it raises, or the detection it
  appends (\<open>None\<close> when the test \<^verbatim>\<open>confidence >= CONFIDENCE_THRESHOLD\<close> fails),
  and the state the model is left in. The variables \<^verbatim>\<open>height\<close> and \<^verbatim>\<open>width\<close>
  that \<^verbatim>\<open>detect_objects\<close> reads from the shape of the frame are not used by it.
\<close>

definition detect_region ::
  "cv2 \<Rightarrow> 'm predict \<Rightarrow> frame \<Rightarrow> box \<Rightarrow> 'm \<Rightarrow> (py_error + detection option) \<times> 'm" where
  "detect_region cv predict img region_box model =
     (case preprocess_frame cv (crop img region_box) (224, 224) of
        Inl e \<Rightarrow> (Inl e, model)
      | Inr processed_region \<Rightarrow>
     (case predict model processed_region of
        (Inl e, model') \<Rightarrow> (Inl e, model')
      | (Inr out, model') \<Rightarrow>
     (case getitem out 0 of
        Inl e \<Rightarrow> (Inl e, model')
      | Inr predictions \<Rightarrow>
     (case np_max predictions of
        Inl e \<Rightarrow> (Inl e, model')
      | Inr conf \<Rightarrow>
          if float_ge conf CONFIDENCE_THRESHOLD then
            (case np_argmax predictions of
               Inl e \<Rightarrow> (Inl e, model')
             | Inr class_idx \<Rightarrow>
            (case getitem CLASS_NAMES class_idx of
               Inl e \<Rightarrow> (Inl e, model')
             | Inr name \<Rightarrow>
                 (Inr (Some \<lparr>box = region_box, confidence = conf, class_name = name\<rparr>),
                  model')))
          else (Inr None, model')))))"

fun detect_loop ::
  "cv2 \<Rightarrow> 'm predict \<Rightarrow> frame \<Rightarrow> box list \<Rightarrow> 'm \<Rightarrow> detection list
     \<Rightarrow> (py_error + detection list) \<times> 'm" where
  "detect_loop cv predict img [] model detections = (Inr detections, model)"
| "detect_loop cv predict img (region_box # regions) model detections =
     (case detect_region cv predict img region_box model of
        (Inl e, model') \<Rightarrow> (Inl e, model')
      | (Inr None, model') \<Rightarrow> detect_loop cv predict img regions model' detections
      | (Inr (Some det), model') \<Rightarrow>
          detect_loop cv predict img regions model' (detections @ [det]))"

definition detect_objects ::
  "cv2 \<Rightarrow> 'm predict \<Rightarrow> frame \<Rightarrow> 'm \<Rightarrow> (py_error + detection list) \<times> 'm" where
  "detect_objects cv predict img model =
     (case get_region_proposals cv img of
        Inl e \<Rightarrow> (Inl e, model)
      | Inr regions \<Rightarrow> detect_loop cv predict img regions model [])"

subsection \<open>\<^verbatim>\<open>load_detection_model\<close>\<close>

text \<open>
  What a run of the script does to the outside is a list of events, in order: the
  Streamlit elements it shows, the camera operations, and the calls of
  \<^verbatim>\<open>detect_objects\<close>.
\<close>

datatype event =
    StTitle string
  | StError string
  | StCheckbox string
  | StImagePlaceholder
  | VideoCapture int
  | CameraRead
  | DetectObjects frame
  | ShowFrame frame
  | TimeSleep real
  | CameraRelease

text \<open>
  \<^verbatim>\<open>load_model\<close> of Keras is a parameter: given the path it returns the model or
  raises. The function returns the events it shows and its value, \<open>None\<close> for Python's
  \<^verbatim>\<open>None\<close>; the \<^verbatim>\<open>except Exception\<close> clause handles every exception of the call.
\<close>

definition load_detection_model :: "(string \<Rightarrow> py_error + 'm) \<Rightarrow> event list \<times> 'm option" where
  "load_detection_model load_model =
     (case load_model ''./model/model.h5'' of
        Inr model \<Rightarrow> ([], Some model)
      | Inl e \<Rightarrow> ([StError (''Error loading model: '' @ str_exc e)], None))"

text \<open>
  The decorator \<^verbatim>\<open>@st.cache_resource\<close> keeps, for the life of the process, the
  value the function returned together with the elements the function showed; every
  later call returns that value and shows those elements again, without running the
  function again. The cache is \<open>None\<close> before the first call and \<open>Some (evs, v)\<close>
  after it: \<open>evs\<close> the elements shown and \<open>v\<close> the value returned (the model object,
  or \<^verbatim>\<open>None\<close>).
\<close>

type_synonym 'm cache = "(event list \<times> 'm option) option"

definition cached_load_detection_model ::
  "'m cache \<Rightarrow> (string \<Rightarrow> py_error + 'm) \<Rightarrow> event list \<times> 'm option \<times> 'm cache" where
  "cached_load_detection_model cache load_model =
     (case cache of
        Some (evs, v) \<Rightarrow> (evs, v, cache)
      | None \<Rightarrow> (case load_detection_model load_model of (evs, v) \<Rightarrow> (evs, v, Some (evs, v))))"

subsection \<open>The Live Camera page\<close>

text \<open>
  The camera is the sequence of what its reads return: \<open>camera n\<close> is the frame of the
  \<open>n\<close>-th \<^verbatim>\<open>camera.read()\<close>, or \<open>None\<close> when that read returns \<^verbatim>\<open>ret = False\<close>.
  The loop \<^verbatim>\<open>while run:\<close> never assigns \<^verbatim>\<open>run\<close>; it ends at the
  \<^verbatim>\<open>break\<close>, with an exception of its body, or not at all: the function has the
  value \<open>None\<close> then. Its result is otherwise the exception that left the loop, if
  any, the state of the classifier and the events so far.
\<close>

partial_function (option) capture_loop ::
  "cv2 \<Rightarrow> 'm predict \<Rightarrow> (nat \<Rightarrow> frame option) \<Rightarrow> bool \<Rightarrow> nat \<Rightarrow> 'm \<Rightarrow> event list
     \<Rightarrow> (py_error option \<times> 'm \<times> event list) option" where
  "capture_loop cv predict camera run n model tr =
     (if run then
        (case camera n of
           None \<Rightarrow> Some (None, model, tr @ [CameraRead, StError ''Failed to access camera''])
         | Some frame \<Rightarrow>
        (case detect_objects cv predict frame model of
           (Inl e, model') \<Rightarrow> Some (Some e, model', tr @ [CameraRead, DetectObjects frame])
         | (Inr detections, model') \<Rightarrow>
        (case draw_detection_boxes cv [frame] 0 detections of
           (frame_with_detections, hp) \<Rightarrow>
        (case cvtColor_BGR2RGB cv (hp ! frame_with_detections) of
           Inl e \<Rightarrow> Some (Some e, model', tr @ [CameraRead, DetectObjects frame])
         | Inr frame_rgb \<Rightarrow>
             capture_loop cv predict camera run (Suc n) model'
               (tr @ [CameraRead, DetectObjects frame, ShowFrame frame_rgb,
                      TimeSleep (1 / 10)])))))
      else Some (None, model, tr))"

text \<open>
  The branch \<^verbatim>\<open>elif selected == "Live Camera"\<close>. \<open>run\<close> is the value of the checkbox.
  An exception that leaves the loop leaves the script: \<^verbatim>\<open>camera.release()\<close> is the
  statement after the loop. The result is the exception that ended the run, if any,
  the cache (the cached model is the object the run has used), and the events of the
  run.
\<close>

definition live_camera_page ::
  "cv2 \<Rightarrow> 'm predict \<Rightarrow> (string \<Rightarrow> py_error + 'm) \<Rightarrow> 'm cache \<Rightarrow> bool
     \<Rightarrow> (nat \<Rightarrow> frame option) \<Rightarrow> (py_error option \<times> 'm cache \<times> event list) option" where
  "live_camera_page cv predict load_model cache run camera =
     (case cached_load_detection_model cache load_model of
        (evs, None, cache') \<Rightarrow>
          Some (None, cache',
                [StTitle ''Live Camera Detection''] @ evs @
                [StError ''Failed to load model. Please check the model file.''])
      | (evs, Some model, cache') \<Rightarrow>
          (case capture_loop cv predict camera run 0 model
                  ([StTitle ''Live Camera Detection''] @ evs @
                   [StCheckbox ''Start Camera'', StImagePlaceholder, VideoCapture 0]) of
             None \<Rightarrow> None
           | Some (Some e, model', tr) \<Rightarrow> Some (Some e, Some (evs, Some model'), tr)
           | Some (None, model', tr) \<Rightarrow>
               Some (None, Some (evs, Some model'), tr @ [CameraRelease])))"

text \<open>
  A session is a sequence of runs of the page in one process, each with the state of the
  file system (\<open>load_model\<close>), of the checkbox and of the camera at that run; the cache
  passes from one run to the next. A run that ends with an exception ends that run
  only. The result is the events of all the runs.
\<close>

fun live_camera_session ::
  "cv2 \<Rightarrow> 'm predict \<Rightarrow> 'm cache
     \<Rightarrow> ((string \<Rightarrow> py_error + 'm) \<times> bool \<times> (nat \<Rightarrow> frame option)) list
     \<Rightarrow> event list option" where
  "live_camera_session cv predict cache [] = Some []"
| "live_camera_session cv predict cache ((load_model, run, camera) # runs) =
     (case live_camera_page cv predict load_model cache run camera of
        None \<Rightarrow> None
      | Some (exc, cache', tr) \<Rightarrow>
          (case live_camera_session cv predict cache' runs of
             None \<Rightarrow> None
           | Some tr' \<Rightarrow> Some (tr @ tr')))"

section \<open>Properties of the collaborators, and test doubles\<close>

text \<open>
  The contract of \<^verbatim>\<open>cv2.resize\<close>: a non-empty image and a positive size give an
  image of that size with the channels of the input.
\<close>

definition resize_contract :: "cv2 \<Rightarrow> bool" where
  "resize_contract cv \<longleftrightarrow>
     (\<forall>img h w c tw th.
        has_shape h w c img \<and> 0 < h \<and> 0 < w \<and> 0 < tw \<and> 0 < th \<longrightarrow>
        (\<exists>out. resize cv img (tw, th) = Inr out \<and> has_shape (nat th) (nat tw) c out))"

text \<open>
  The number a string of decimal digits denotes, to read a printed number back.
\<close>

definition decimal_value :: "string \<Rightarrow> nat" where
  "decimal_value s = foldl (\<lambda>a c. 10 * a + index_of c ''0123456789'') 0 s"

text \<open>A float of the interval from 0 to 1.\<close>

definition unit_interval :: "pyfloat \<Rightarrow> bool" where
  "unit_interval v = (case v of Finite r \<Rightarrow> 0 \<le> r \<and> r \<le> 1 | PosInf \<Rightarrow> False | NegInf \<Rightarrow> False | NaN \<Rightarrow> False)"

text \<open>
  Two states of a model give the same outputs when \<^verbatim>\<open>predict\<close> returns (or raises)
  the same on every tensor; a classifier is deterministic when a call leaves the model
  in a state that gives the same outputs as before.
\<close>

definition same_outputs :: "'m predict \<Rightarrow> 'm \<Rightarrow> 'm \<Rightarrow> bool" where
  "same_outputs predict m m' \<longleftrightarrow> (\<forall>t. fst (predict m t) = fst (predict m' t))"

definition deterministic :: "'m predict \<Rightarrow> bool" where
  "deterministic predict \<longleftrightarrow> (\<forall>m t. same_outputs predict m (snd (predict m t)))"

text \<open>
  What the body of the loop appends for a region when the model is in state \<open>m\<close> and
  the body raises nothing.
\<close>

definition region_detection :: "cv2 \<Rightarrow> 'm predict \<Rightarrow> frame \<Rightarrow> 'm \<Rightarrow> box \<Rightarrow> detection option" where
  "region_detection cv predict img m r =
     (case fst (detect_region cv predict img r m) of Inl e \<Rightarrow> None | Inr d \<Rightarrow> d)"

text \<open>
  A test double of OpenCV. The segmentation returns the contours it is set up with;
  the bounding rectangle of a contour is the smallest upright rectangle that holds its
  points; resizing takes the nearest pixel; a rectangle is drawn filled and text is not
  drawn; the size of a text grows with its length.
\<close>

definition bounding_box :: "contour \<Rightarrow> py_error + box" where
  "bounding_box c =
     (case c of
        [] \<Rightarrow> Inl (Cv2Error ''empty contour'')
      | p # ps \<Rightarrow>
          (let x0 = fold min (map fst ps) (fst p); x1 = fold max (map fst ps) (fst p);
               y0 = fold min (map snd ps) (snd p); y1 = fold max (map snd ps) (snd p)
           in Inr (x0, y0, x1 - x0 + 1, y1 - y0 + 1)))"

definition nearest_resize :: "frame \<Rightarrow> int \<times> int \<Rightarrow> py_error + frame" where
  "nearest_resize img sz =
     (case sz of
        (w, h) \<Rightarrow>
          if img = [] \<or> hd img = [] \<or> w \<le> 0 \<or> h \<le> 0 then Inl (Cv2Error ''empty image or size'')
          else Inr (map (\<lambda>i. map (\<lambda>j. img ! (i * length img div nat h)
                                         ! (j * length (hd img) div nat w))
                                  [0..<nat w])
                        [0..<nat h]))"

definition fill_rectangle :: "frame \<Rightarrow> draw_call \<Rightarrow> frame" where
  "fill_rectangle img call =
     (case call of
        Rectangle (x1, y1) (x2, y2) (b, g, r) thickness \<Rightarrow>
          map (\<lambda>(i, row).
                 map (\<lambda>(j, px).
                        if y1 \<le> int i \<and> int i \<le> y2 \<and> x1 \<le> int j \<and> int j \<le> x2
                        then [word_of_int b, word_of_int g, word_of_int r] else px)
                     (List.enumerate 0 row))
              (List.enumerate 0 img)
      | PutText txt org font scale col thickness \<Rightarrow> img)"

definition test_cv2 :: "contour list \<Rightarrow> cv2" where
  "test_cv2 contours =
     \<lparr>cvtColor_BGR2GRAY = (\<lambda>img. Inr (map (map (\<lambda>px. case px of [] \<Rightarrow> 0 | v # vs \<Rightarrow> v)) img)),
      GaussianBlur_5x5 = Inr,
      threshold_otsu = (\<lambda>g. Inr (127, map (map (\<lambda>v. if 127 < v then 255 else 0)) g)),
      findContours_external = (\<lambda>g. Inr contours),
      boundingRect = bounding_box,
      resize = nearest_resize,
      draw = fill_rectangle,
      getTextSize = (\<lambda>txt font scale thickness. ((9 * int (length txt), 11), 4)),
      cvtColor_BGR2RGB = (\<lambda>img. Inr (map (map rev) img))\<rparr>"

text \<open>
  A test double of the classifier: it returns the same score vector for every tensor,
  and counts its calls in its state.
\<close>

definition counting_predict :: "pyfloat list \<Rightarrow> nat predict" where
  "counting_predict scores n t = (Inr [scores], Suc n)"

text \<open>A classifier whose \<^verbatim>\<open>predict\<close> raises, as Keras does on an input it rejects.\<close>

definition raising_predict :: "nat predict" where
  "raising_predict n t = (Inl (ValueError ''Input 0 is incompatible with the layer''), Suc n)"

text \<open>
  The two score vectors of the scenarios: one confident of the first class, one uniform.
\<close>

definition confident_scores :: "pyfloat list" where
  "confident_scores =
     [Finite (9 / 10), Finite (2 / 100), Finite (2 / 100), Finite (2 / 100), Finite (4 / 100)]"

definition uniform_scores :: "pyfloat list" where
  "uniform_scores =
     [Finite (2 / 10), Finite (2 / 10), Finite (2 / 10), Finite (2 / 10), Finite (2 / 10)]"

text \<open>Test inputs: a black frame of 64 by 64 pixels, and two contours, one large enough.\<close>

definition black_frame :: frame where
  "black_frame = replicate 64 (replicate 64 [0, 0, 0])"

definition two_contours :: "contour list" where
  "two_contours = [[(0, 0), (59, 0), (59, 59), (0, 59)], [(5, 5), (20, 5), (20, 40), (5, 40)]]"

section \<open>Theorems\<close>

subsection \<open>The region proposer\<close>

lemma region_loop_all:
  "region_loop cv cs acc = Inr regions \<Longrightarrow>
   \<forall>r \<in> set acc. 50 < fst (snd (snd r)) \<and> 50 < snd (snd (snd r)) \<Longrightarrow>
   \<forall>r \<in> set regions. 50 < fst (snd (snd r)) \<and> 50 < snd (snd (snd r))"
proof (induction cs arbitrary: acc)
  case Nil
  then show ?case by simp
next
  case (Cons c cs)
  show ?case
  proof (cases "boundingRect cv c")
    case (Inl e)
    with Cons.prems show ?thesis by simp
  next
    case (Inr b)
    obtain x y w h where b: "b = (x, y, w, h)" by (cases b) auto
    show ?thesis
    proof (cases "50 < w \<and> 50 < h")
      case True
      with Inr b Cons.prems(1) have "region_loop cv cs (acc @ [(x, y, w, h)]) = Inr regions"
        by simp
      moreover from True Cons.prems(2)
      have "\<forall>r \<in> set (acc @ [(x, y, w, h)]). 50 < fst (snd (snd r)) \<and> 50 < snd (snd (snd r))"
        by simp
      ultimately show ?thesis by (rule Cons.IH)
    next
      case False
      with Inr b Cons.prems(1) have "region_loop cv cs acc = Inr regions"
        by auto
      then show ?thesis using Cons.prems(2) by (rule Cons.IH)
    qed
  qed
qed

lemma test_regions:
  "get_region_proposals (test_cv2 two_contours) black_frame = Inr [(0, 0, 60, 60)]"
  by (simp add: get_region_proposals_def test_cv2_def two_contours_def bounding_box_def)

text \<open>
  Claim C2: every rectangle \<open>(x, y, w, h)\<close> that \<^verbatim>\<open>get_region_proposals\<close> returns, for
  any frame and any behaviour of OpenCV, has \<open>w > 50\<close> and \<open>h > 50\<close>.
\<close>

theorem get_region_proposals_min_size:
  assumes "get_region_proposals cv img = Inr regions" and "(x, y, w, h) \<in> set regions"
  shows "50 < w \<and> 50 < h"
proof -
  from assms(1) obtain cs where "region_loop cv cs [] = Inr regions"
    by (auto simp: get_region_proposals_def split: sum.splits prod.splits)
  then have "\<forall>r \<in> set regions. 50 < fst (snd (snd r)) \<and> 50 < snd (snd (snd r))"
    by (rule region_loop_all) simp
  with assms(2) show ?thesis by fastforce
qed

theorem get_region_proposals_min_size_witness:
  "get_region_proposals (test_cv2 two_contours) black_frame = Inr [(0, 0, 60, 60)] \<and>
   (50 :: int) < 60"
proof -
  have r: "get_region_proposals (test_cv2 two_contours) black_frame = Inr [(0, 0, 60, 60)]"
    by (rule test_regions)
  have "(0, 0, 60, 60) \<in> set [(0 :: int, 0 :: int, 60 :: int, 60 :: int)]" by simp
  from get_region_proposals_min_size [OF r this] r show ?thesis by simp
qed

subsection \<open>The frame preprocessor\<close>

lemma scaled_index_less:
  assumes "i < n" and "0 < (h::nat)"
  shows "i * h div n < h"
proof -
  from assms have "i * h < h * n" by (simp add: mult.commute)
  then show ?thesis by (rule less_mult_imp_div_less)
qed

lemma has_shape_nth:
  assumes "has_shape h w c img" and "i < h" and "j < w"
  shows "length (img ! i ! j) = c"
proof -
  from assms(1,2) have row: "img ! i \<in> set img" by (simp add: has_shape_def)
  with assms(1) have "length (img ! i) = w" by (simp add: has_shape_def)
  with assms(3) have "img ! i ! j \<in> set (img ! i)" by simp
  with assms(1) row show ?thesis by (simp add: has_shape_def)
qed

lemma nearest_resize_shape:
  assumes "has_shape h w c img" and "0 < h" and "0 < w" and "0 < tw" and "0 < th"
  shows "\<exists>out. nearest_resize img (tw, th) = Inr out \<and> has_shape (nat th) (nat tw) c out"
proof -
  from assms(1,2) have ne: "img \<noteq> []" by (auto simp: has_shape_def)
  then have "hd img \<in> set img" by simp
  with assms(1) have lw: "length (hd img) = w" by (simp add: has_shape_def)
  with assms(3) have ne': "hd img \<noteq> []" by auto
  from assms(1) have lh: "length img = h" by (simp add: has_shape_def)
  let ?out = "map (\<lambda>i. map (\<lambda>j. img ! (i * h div nat th) ! (j * w div nat tw)) [0..<nat tw]) [0..<nat th]"
  have "nearest_resize img (tw, th) = Inr ?out"
    using ne ne' assms(4,5) lw lh by (simp add: nearest_resize_def)
  moreover have "has_shape (nat th) (nat tw) c ?out"
    using assms(2,3) has_shape_nth [OF assms(1)] scaled_index_less
    by (auto simp: has_shape_def)
  ultimately show ?thesis by blast
qed

lemma test_cv2_resize_contract: "resize_contract (test_cv2 cs)"
  unfolding resize_contract_def
  by (auto simp: test_cv2_def dest: nearest_resize_shape)

lemma byte_unit_interval: "unit_interval (Finite (real (unat (v :: 8 word)) / 255))"
proof -
  have "unat v < 2 ^ LENGTH(8)" by (rule unsigned_less)
  then have "unat v \<le> 255" by simp
  then have "(of_nat (unat v) :: real) \<le> of_nat 255" by (rule of_nat_mono)
  moreover have "(0 :: real) \<le> of_nat (unat v)" by (rule of_nat_0_le_iff)
  ultimately show ?thesis by (simp add: unit_interval_def del: of_nat_unat)
qed

lemma byte_unit_interval': "unit_interval (Finite (unsigned (v :: 8 word) / 255))"
  using byte_unit_interval [of v] by simp

lemma black_frame_shape: "has_shape 64 64 3 black_frame"
  by (simp add: has_shape_def black_frame_def)

lemma resize_result:
  assumes "resize_contract cv" and "has_shape h w c frame" and "0 < h" and "0 < w"
  shows "\<exists>out. resize cv frame (224, 224) = Inr out \<and> has_shape 224 224 c out"
proof -
  from assms obtain out where
    "resize cv frame (224, 224) = Inr out" and "has_shape (nat 224) (nat 224) c out"
    unfolding resize_contract_def by (metis zero_less_numeral)
  then show ?thesis by auto
qed

lemma preprocess_frame_returns:
  assumes "resize_contract cv" and "has_shape h w c frame" and "0 < h" and "0 < w"
  shows "\<exists>t. preprocess_frame cv frame (224, 224) = Inr t"
  using resize_result [OF assms] by (auto simp: preprocess_frame_def)

text \<open>
  Claim C3: for every non-empty region with three channels of bytes,
  \<^verbatim>\<open>preprocess_frame\<close> returns (it raises nothing) a tensor of shape (1, 224, 224, 3)
  whose values are all floats between 0 and 1. The only assumption is the contract of
  \<^verbatim>\<open>cv2.resize\<close>.
\<close>

theorem preprocess_frame_shape_and_range:
  assumes "resize_contract cv" and "has_shape h w 3 frame" and "0 < h" and "0 < w"
  shows "\<exists>t. preprocess_frame cv frame (224, 224) = Inr t \<and> has_shape4 1 224 224 3 t \<and>
             (\<forall>v \<in> set (concat (concat (concat t))). unit_interval v)"
proof -
  from resize_result [OF assms] obtain out where
    r: "resize cv frame (224, 224) = Inr out" and s: "has_shape 224 224 3 out"
    by blast
  let ?t = "[map (map (map (\<lambda>v. Finite (real (unat v) / 255)))) out]"
  from r have "preprocess_frame cv frame (224, 224) = Inr ?t"
    by (simp add: preprocess_frame_def)
  moreover from s have "has_shape4 1 224 224 3 ?t"
    by (auto simp: has_shape4_def has_shape_def)
  moreover have "\<forall>v \<in> set (concat (concat (concat ?t))). unit_interval v"
    by (auto simp: byte_unit_interval')
  ultimately show ?thesis by blast
qed

theorem preprocess_frame_shape_and_range_witness:
  "resize_contract (test_cv2 two_contours) \<and> has_shape 64 64 3 black_frame \<and>
   (\<exists>t. preprocess_frame (test_cv2 two_contours) black_frame (224, 224) = Inr t \<and>
        has_shape4 1 224 224 3 t \<and>
        (\<forall>v \<in> set (concat (concat (concat t))). unit_interval v))"
proof -
  have c: "resize_contract (test_cv2 two_contours)" by (rule test_cv2_resize_contract)
  have "(0 :: nat) < 64" by simp
  from preprocess_frame_shape_and_range [OF c black_frame_shape this this] c black_frame_shape
  show ?thesis by blast
qed

subsection \<open>The detection pipeline\<close>

lemma getitem_mem: "getitem xs i = Inr v \<Longrightarrow> v \<in> set xs"
  by (auto simp: getitem_def split: if_splits)

lemma detect_region_Some:
  "detect_region cv predict img r m = (Inr (Some d), m') \<Longrightarrow>
     box d = r \<and> float_ge (confidence d) CONFIDENCE_THRESHOLD \<and> class_name d \<in> set CLASS_NAMES"
  by (auto simp: detect_region_def split: sum.splits prod.splits if_splits dest: getitem_mem)

lemma detect_loop_step:
  "detect_loop cv predict img (r # regions) m acc = (Inr dets, m') \<Longrightarrow>
     \<exists>od m1. detect_region cv predict img r m = (Inr od, m1) \<and>
       detect_loop cv predict img regions m1 (acc @ (case od of None \<Rightarrow> [] | Some d \<Rightarrow> [d])) = (Inr dets, m')"
  by (cases "detect_region cv predict img r m") (auto split: sum.splits option.splits)

lemma detect_objects_loop:
  assumes "fst (detect_objects cv predict img m) = Inr dets"
  shows "\<exists>regions m'. get_region_proposals cv img = Inr regions \<and>
           detect_loop cv predict img regions m [] = (Inr dets, m')"
proof (cases "get_region_proposals cv img")
  case (Inl e)
  with assms show ?thesis by (simp add: detect_objects_def)
next
  case (Inr regions)
  with assms have "fst (detect_loop cv predict img regions m []) = Inr dets"
    by (simp add: detect_objects_def)
  then have "detect_loop cv predict img regions m [] =
               (Inr dets, snd (detect_loop cv predict img regions m []))"
    by (metis prod.collapse)
  with Inr show ?thesis by blast
qed

lemma detect_loop_subseq:
  "detect_loop cv predict img regions m acc = (Inr dets, m') \<Longrightarrow>
   subseq (map box acc) pre \<Longrightarrow> subseq (map box dets) (pre @ regions)"
proof (induction regions arbitrary: m acc pre)
  case Nil
  then show ?case by simp
next
  case (Cons r regions)
  from detect_loop_step [OF Cons.prems(1)] obtain od m1 where
    r: "detect_region cv predict img r m = (Inr od, m1)" and
    l: "detect_loop cv predict img regions m1 (acc @ (case od of None \<Rightarrow> [] | Some d \<Rightarrow> [d])) = (Inr dets, m')"
    by blast
  have "subseq (map box (acc @ (case od of None \<Rightarrow> [] | Some d \<Rightarrow> [d]))) (pre @ [r])"
  proof (cases od)
    case None
    then show ?thesis using Cons.prems(2) by (simp add: list_emb_prefix)
  next
    case (Some d)
    with r have "detect_region cv predict img r m = (Inr (Some d), m1)" by simp
    then have "box d = r" by (rule detect_region_Some [THEN conjunct1])
    with Some show ?thesis using Cons.prems(2) by simp
  qed
  with l have "subseq (map box dets) ((pre @ [r]) @ regions)" by (rule Cons.IH)
  then show ?case by simp
qed

lemma detect_loop_all:
  "detect_loop cv predict img regions m acc = (Inr dets, m') \<Longrightarrow>
   \<forall>d \<in> set acc. float_ge (confidence d) CONFIDENCE_THRESHOLD \<and> class_name d \<in> set CLASS_NAMES \<Longrightarrow>
   \<forall>d \<in> set dets. float_ge (confidence d) CONFIDENCE_THRESHOLD \<and> class_name d \<in> set CLASS_NAMES"
proof (induction regions arbitrary: m acc)
  case Nil
  then show ?case by simp
next
  case (Cons r regions)
  from detect_loop_step [OF Cons.prems(1)] obtain od m1 where
    r: "detect_region cv predict img r m = (Inr od, m1)" and
    l: "detect_loop cv predict img regions m1 (acc @ (case od of None \<Rightarrow> [] | Some d \<Rightarrow> [d])) = (Inr dets, m')"
    by blast
  have "\<forall>d \<in> set (acc @ (case od of None \<Rightarrow> [] | Some d \<Rightarrow> [d])).
          float_ge (confidence d) CONFIDENCE_THRESHOLD \<and> class_name d \<in> set CLASS_NAMES"
    using Cons.prems(2) detect_region_Some [of cv predict img r m _ m1] r
    by (cases od) auto
  with l show ?case by (rule Cons.IH)
qed

lemma float_ge_threshold:
  "float_ge v CONFIDENCE_THRESHOLD \<longleftrightarrow> v = PosInf \<or> (\<exists>r. v = Finite r \<and> 1 / 2 \<le> r)"
  by (cases v) (simp_all add: CONFIDENCE_THRESHOLD_def)

lemma confident_max: "np_max confident_scores = Inr (Finite (9 / 10))"
  by (simp add: np_max_def confident_scores_def np_maximum_def)

lemma confident_argmax: "np_argmax confident_scores = Inr 0"
  by (simp add: np_argmax_def confident_max) (simp add: confident_scores_def)

lemma detect_region_confident:
  assumes "predict m t = (Inr [confident_scores], m1)"
    and "preprocess_frame cv (crop img r) (224, 224) = Inr t"
  shows "detect_region cv predict img r m =
           (Inr (Some \<lparr>box = r, confidence = Finite (9 / 10), class_name = ''karbohidrat''\<rparr>), m1)"
  using assms
  by (simp add: detect_region_def getitem_def confident_max confident_argmax
        CONFIDENCE_THRESHOLD_def CLASS_NAMES_def)

lemma detect_region_confident_cases:
  assumes "\<forall>m t. fst (predict m t) = Inr [confident_scores]"
    and "detect_region cv predict img r m = (Inr od, m1)"
  shows "od = Some \<lparr>box = r, confidence = Finite (9 / 10), class_name = ''karbohidrat''\<rparr>"
proof (cases "preprocess_frame cv (crop img r) (224, 224)")
  case (Inl e)
  with assms(2) show ?thesis by (simp add: detect_region_def)
next
  case (Inr t)
  from assms(1) have "fst (predict m t) = Inr [confident_scores]" by blast
  then have "predict m t = (Inr [confident_scores], snd (predict m t))"
    by (metis prod.collapse)
  from detect_region_confident [where predict = predict and m = m, OF this Inr] assms(2)
  show ?thesis by simp
qed

lemma detect_loop_confident:
  assumes "\<forall>m t. fst (predict m t) = Inr [confident_scores]"
  shows "detect_loop cv predict img regions m acc = (Inr dets, m') \<Longrightarrow>
         dets = acc @ map (\<lambda>r. \<lparr>box = r, confidence = Finite (9 / 10),
                                 class_name = ''karbohidrat''\<rparr>) regions"
proof (induction regions arbitrary: m acc)
  case Nil
  then show ?case by simp
next
  case (Cons r regions)
  from detect_loop_step [OF Cons.prems] obtain od m1 where
    r: "detect_region cv predict img r m = (Inr od, m1)" and
    l: "detect_loop cv predict img regions m1 (acc @ (case od of None \<Rightarrow> [] | Some d \<Rightarrow> [d])) = (Inr dets, m')"
    by blast
  from detect_region_confident_cases [OF assms r] Cons.IH [OF l]
  show ?case by simp
qed

lemma test_crop: "crop black_frame (0, 0, 60, 60) = replicate 60 (replicate 60 [0, 0, 0])"
  by (simp add: crop_def py_slice_def slice_bound_def black_frame_def)

lemma test_preprocess:
  "\<exists>t. preprocess_frame (test_cv2 cs) (crop black_frame (0, 0, 60, 60)) (224, 224) = Inr t"
proof -
  have "has_shape 60 60 3 (crop black_frame (0, 0, 60, 60))"
    by (simp add: test_crop has_shape_def)
  from preprocess_frame_returns [OF test_cv2_resize_contract [of cs] this]
  show ?thesis by simp
qed

lemma test_detect_confident:
  "detect_objects (test_cv2 two_contours) (counting_predict confident_scores) black_frame 0 =
     (Inr [\<lparr>box = (0, 0, 60, 60), confidence = Finite (9 / 10), class_name = ''karbohidrat''\<rparr>], 1)"
proof -
  obtain t where
    t: "preprocess_frame (test_cv2 two_contours) (crop black_frame (0, 0, 60, 60)) (224, 224) = Inr t"
    using test_preprocess by blast
  have "counting_predict confident_scores 0 t = (Inr [confident_scores], 1)"
    by (simp add: counting_predict_def)
  from detect_region_confident
         [where predict = "counting_predict confident_scores" and m = 0, OF this t]
  show ?thesis by (simp add: detect_objects_def test_regions)
qed

text \<open>
  The scenario of the uniform classifier: no score reaches the threshold, so no region
  gives a detection.
\<close>

lemma uniform_max: "np_max uniform_scores = Inr (Finite (2 / 10))"
  by (simp add: np_max_def uniform_scores_def np_maximum_def)

lemma detect_region_uniform:
  assumes "\<forall>m t. fst (predict m t) = Inr [uniform_scores]"
    and "detect_region cv predict img r m = (Inr od, m1)"
  shows "od = None"
proof (cases "preprocess_frame cv (crop img r) (224, 224)")
  case (Inl e)
  with assms(2) show ?thesis by (simp add: detect_region_def)
next
  case (Inr t)
  from assms(1) have "fst (predict m t) = Inr [uniform_scores]" by blast
  then obtain m2 where "predict m t = (Inr [uniform_scores], m2)"
    by (cases "predict m t") simp
  with Inr assms(2) show ?thesis
    by (simp add: detect_region_def getitem_def uniform_max CONFIDENCE_THRESHOLD_def)
qed

lemma detect_loop_uniform:
  assumes "\<forall>m t. fst (predict m t) = Inr [uniform_scores]"
  shows "detect_loop cv predict img regions m acc = (Inr dets, m') \<Longrightarrow> dets = acc"
proof (induction regions arbitrary: m acc)
  case Nil
  then show ?case by simp
next
  case (Cons r regions)
  from detect_loop_step [OF Cons.prems] obtain od m1 where
    r: "detect_region cv predict img r m = (Inr od, m1)" and
    l: "detect_loop cv predict img regions m1 (acc @ (case od of None \<Rightarrow> [] | Some d \<Rightarrow> [d])) = (Inr dets, m')"
    by blast
  from detect_region_uniform [OF assms r] Cons.IH [OF l] show ?case by simp
qed

lemma detect_objects_uniform_classifier:
  assumes "\<forall>m t. fst (predict m t) = Inr [uniform_scores]"
    and "fst (detect_objects cv predict img m) = Inr dets"
  shows "dets = []"
proof -
  from detect_objects_loop [OF assms(2)] obtain regions m' where
    "detect_loop cv predict img regions m [] = (Inr dets, m')" by blast
  from detect_loop_uniform [OF assms(1) this] show ?thesis by simp
qed

text \<open>
  Claim C1: every detection that \<^verbatim>\<open>detect_objects\<close> returns, for any frame and any
  classifier, has a confidence of at least 0.5 (in particular it is not NaN).
\<close>

theorem detect_objects_confidence:
  assumes "fst (detect_objects cv predict img m) = Inr dets" and "d \<in> set dets"
  shows "float_ge (confidence d) CONFIDENCE_THRESHOLD \<and> confidence d \<noteq> NaN \<and>
         (\<forall>r. confidence d = Finite r \<longrightarrow> 1 / 2 \<le> r)"
proof -
  from detect_objects_loop [OF assms(1)] obtain regions m' where
    "detect_loop cv predict img regions m [] = (Inr dets, m')" by blast
  then have "\<forall>d \<in> set dets. float_ge (confidence d) CONFIDENCE_THRESHOLD \<and> class_name d \<in> set CLASS_NAMES"
    by (rule detect_loop_all) simp
  with assms(2) have "float_ge (confidence d) CONFIDENCE_THRESHOLD" by blast
  then show ?thesis by (auto simp: float_ge_threshold)
qed

theorem detect_objects_confidence_witness:
  "fst (detect_objects (test_cv2 two_contours) (counting_predict confident_scores) black_frame 0) =
     Inr [\<lparr>box = (0, 0, 60, 60), confidence = Finite (9 / 10), class_name = ''karbohidrat''\<rparr>] \<and>
   float_ge (Finite (9 / 10)) CONFIDENCE_THRESHOLD \<and> (1 :: real) / 2 \<le> 9 / 10"
proof -
  let ?d = "\<lparr>box = (0, 0, 60, 60), confidence = Finite (9 / 10), class_name = ''karbohidrat''\<rparr>"
  have b: "fst (detect_objects (test_cv2 two_contours) (counting_predict confident_scores)
                  black_frame 0) = Inr [?d]"
    by (simp add: test_detect_confident)
  have "?d \<in> set [?d]" by simp
  from detect_objects_confidence [OF b this] b show ?thesis by simp
qed

text \<open>
  Claim C10: the boxes of the detections returned are, in order, a subsequence of the
  regions proposed for the frame (each region gives at most one detection, whose box is
  that region), so there are at most as many detections as regions; and every class is
  one of the five names of \<^verbatim>\<open>CLASS_NAMES\<close>.
\<close>

theorem detect_objects_subsequence:
  assumes "fst (detect_objects cv predict img m) = Inr dets"
  shows "\<exists>regions. get_region_proposals cv img = Inr regions \<and>
           subseq (map box dets) regions \<and> length dets \<le> length regions \<and>
           (\<forall>d \<in> set dets. class_name d \<in> set CLASS_NAMES)"
proof -
  from detect_objects_loop [OF assms(1)] obtain regions m' where
    g: "get_region_proposals cv img = Inr regions" and
    l: "detect_loop cv predict img regions m [] = (Inr dets, m')" by blast
  from l have s: "subseq (map box dets) ([] @ regions)"
    by (rule detect_loop_subseq) simp
  then have "length (map box dets) \<le> length regions"
    using list_emb_length by fastforce
  moreover from l have "\<forall>d \<in> set dets. float_ge (confidence d) CONFIDENCE_THRESHOLD \<and> class_name d \<in> set CLASS_NAMES"
    by (rule detect_loop_all) simp
  ultimately show ?thesis using g s by auto
qed

theorem detect_objects_subsequence_witness:
  "get_region_proposals (test_cv2 two_contours) black_frame = Inr [(0, 0, 60, 60)] \<and>
   subseq [(0, 0, 60, 60)] [(0 :: int, 0 :: int, 60 :: int, 60 :: int)] \<and>
   ''karbohidrat'' \<in> set CLASS_NAMES"
proof -
  let ?d = "\<lparr>box = (0, 0, 60, 60), confidence = Finite (9 / 10), class_name = ''karbohidrat''\<rparr>"
  have b: "fst (detect_objects (test_cv2 two_contours) (counting_predict confident_scores)
                  black_frame 0) = Inr [?d]"
    by (simp add: test_detect_confident)
  from detect_objects_subsequence [OF b] test_regions show ?thesis by auto
qed

lemma same_outputs_refl: "same_outputs predict m m"
  by (simp add: same_outputs_def)

lemma same_outputs_sym: "same_outputs predict m m' \<Longrightarrow> same_outputs predict m' m"
  by (simp add: same_outputs_def)

lemma same_outputs_trans:
  "same_outputs predict a b \<Longrightarrow> same_outputs predict b c \<Longrightarrow> same_outputs predict a c"
  by (simp add: same_outputs_def)

lemma detect_region_same:
  assumes "same_outputs predict m0 m"
  shows "fst (detect_region cv predict img r m) = fst (detect_region cv predict img r m0)"
proof (cases "preprocess_frame cv (crop img r) (224, 224)")
  case (Inl e)
  then show ?thesis by (simp add: detect_region_def)
next
  case (Inr t)
  from assms have "fst (predict m t) = fst (predict m0 t)"
    by (simp add: same_outputs_def)
  then show ?thesis
    by (cases "predict m t"; cases "predict m0 t")
       (auto simp: detect_region_def Inr split: sum.splits)
qed

lemma detect_region_state:
  assumes "deterministic predict"
  shows "same_outputs predict m (snd (detect_region cv predict img r m))"
proof (cases "preprocess_frame cv (crop img r) (224, 224)")
  case (Inl e)
  then show ?thesis by (simp add: detect_region_def same_outputs_refl)
next
  case (Inr t)
  have "snd (detect_region cv predict img r m) = snd (predict m t)"
    by (cases "predict m t") (auto simp: detect_region_def Inr split: sum.splits)
  with assms show ?thesis by (simp add: deterministic_def)
qed

lemma detect_loop_state:
  assumes "deterministic predict"
  shows "same_outputs predict m (snd (detect_loop cv predict img regions m acc))"
proof (induction regions arbitrary: m acc)
  case Nil
  show ?case by (simp add: same_outputs_refl)
next
  case (Cons r regions)
  obtain res m1 where r: "detect_region cv predict img r m = (res, m1)"
    by (cases "detect_region cv predict img r m")
  have m1: "same_outputs predict m m1"
    using detect_region_state [OF assms, of m cv img r] r by simp
  show ?case
  proof (cases res)
    case (Inl e)
    with r m1 show ?thesis by simp
  next
    case (Inr od)
    have "same_outputs predict m1 (snd (detect_loop cv predict img regions m1 acc'))" for acc'
      by (rule Cons.IH)
    with m1 have "same_outputs predict m (snd (detect_loop cv predict img regions m1 acc'))" for acc'
      by (rule same_outputs_trans)
    with r Inr show ?thesis by (cases od) simp_all
  qed
qed

lemma detect_loop_same:
  assumes "deterministic predict"
  shows "same_outputs predict m0 m \<Longrightarrow>
         fst (detect_loop cv predict img regions m acc) = fst (detect_loop cv predict img regions m0 acc)"
proof (induction regions arbitrary: m m0 acc)
  case Nil
  show ?case by simp
next
  case (Cons r regions)
  obtain res m1 where r: "detect_region cv predict img r m = (res, m1)"
    by (cases "detect_region cv predict img r m")
  obtain res0 m2 where r0: "detect_region cv predict img r m0 = (res0, m2)"
    by (cases "detect_region cv predict img r m0")
  from detect_region_same [OF Cons.prems, of cv img r] r r0 have eq: "res0 = res" by simp
  have "same_outputs predict m m1"
    using detect_region_state [OF assms, of m cv img r] r by simp
  moreover have "same_outputs predict m0 m2"
    using detect_region_state [OF assms, of m0 cv img r] r0 by simp
  ultimately have "same_outputs predict m2 m1"
    using Cons.prems by (meson same_outputs_sym same_outputs_trans)
  then have "fst (detect_loop cv predict img regions m1 acc') =
             fst (detect_loop cv predict img regions m2 acc')" for acc'
    by (rule Cons.IH)
  with r r0 eq show ?case
    by (cases res) (simp_all split: option.splits)
qed

lemma detect_loop_map_filter:
  assumes "deterministic predict"
  shows "same_outputs predict m0 m \<Longrightarrow>
         detect_loop cv predict img regions m acc = (Inr dets, m') \<Longrightarrow>
         dets = acc @ List.map_filter (region_detection cv predict img m0) regions"
proof (induction regions arbitrary: m acc)
  case Nil
  then show ?case by simp
next
  case (Cons r regions)
  from detect_loop_step [OF Cons.prems(2)] obtain od m1 where
    r: "detect_region cv predict img r m = (Inr od, m1)" and
    l: "detect_loop cv predict img regions m1 (acc @ (case od of None \<Rightarrow> [] | Some d \<Rightarrow> [d])) = (Inr dets, m')"
    by blast
  have "fst (detect_region cv predict img r m0) = fst (detect_region cv predict img r m)"
    by (rule detect_region_same [OF Cons.prems(1), symmetric])
  also have "\<dots> = Inr od" by (simp add: r)
  finally have od: "region_detection cv predict img m0 r = od"
    by (simp add: region_detection_def)
  have "same_outputs predict m m1"
    using detect_region_state [OF assms, of m cv img r] r by simp
  with Cons.prems(1) have "same_outputs predict m0 m1" by (rule same_outputs_trans)
  from Cons.IH [OF this l] od show ?case
    by (cases od) simp_all
qed

text \<open>
  Claim C5: with a deterministic classifier, a second run on the same frame (the model
  in the state the first run left it in) returns the same as the first; and the
  detections returned are those of the proposed regions, in the order of the regions.
\<close>

theorem detect_objects_deterministic:
  assumes "deterministic predict"
  shows "fst (detect_objects cv predict img (snd (detect_objects cv predict img m))) =
           fst (detect_objects cv predict img m) \<and>
         (\<forall>dets. fst (detect_objects cv predict img m) = Inr dets \<longrightarrow>
            (\<exists>regions. get_region_proposals cv img = Inr regions \<and>
               dets = List.map_filter (region_detection cv predict img m) regions))"
proof (intro conjI allI impI)
  have "same_outputs predict m (snd (detect_objects cv predict img m))"
    by (cases "get_region_proposals cv img")
       (simp_all add: detect_objects_def same_outputs_refl detect_loop_state [OF assms])
  then show "fst (detect_objects cv predict img (snd (detect_objects cv predict img m))) =
           fst (detect_objects cv predict img m)"
    by (cases "get_region_proposals cv img")
       (simp_all add: detect_objects_def detect_loop_same [OF assms])
next
  fix dets
  assume "fst (detect_objects cv predict img m) = Inr dets"
  from detect_objects_loop [OF this] obtain regions m' where
    g: "get_region_proposals cv img = Inr regions" and
    l: "detect_loop cv predict img regions m [] = (Inr dets, m')" by blast
  from detect_loop_map_filter [OF assms same_outputs_refl l] g
  show "\<exists>regions. get_region_proposals cv img = Inr regions \<and>
               dets = List.map_filter (region_detection cv predict img m) regions"
    by simp
qed

theorem detect_objects_deterministic_witness:
  "deterministic (counting_predict confident_scores) \<and>
   fst (detect_objects (test_cv2 two_contours) (counting_predict confident_scores) black_frame
          (snd (detect_objects (test_cv2 two_contours) (counting_predict confident_scores)
                  black_frame 0))) =
     Inr [\<lparr>box = (0, 0, 60, 60), confidence = Finite (9 / 10), class_name = ''karbohidrat''\<rparr>] \<and>
   List.map_filter
     (region_detection (test_cv2 two_contours) (counting_predict confident_scores) black_frame 0)
     [(0, 0, 60, 60)] =
     [\<lparr>box = (0, 0, 60, 60), confidence = Finite (9 / 10), class_name = ''karbohidrat''\<rparr>]"
proof -
  have d: "deterministic (counting_predict confident_scores)"
    by (simp add: deterministic_def same_outputs_def counting_predict_def)
  from detect_objects_deterministic [OF d, of "test_cv2 two_contours" black_frame 0] d
  show ?thesis by (simp add: test_detect_confident test_regions)
qed

text \<open>
  Claim C8, as the program has it: when the classifier always returns the vector
  [0.9, 0.02, 0.02, 0.02, 0.04], every proposed region gives a detection, and every
  detection has the confidence 0.9 and the class \<^verbatim>\<open>karbohidrat\<close>, the first of
  \<^verbatim>\<open>CLASS_NAMES\<close>. The class is not the string \<^verbatim>\<open>carbohydrate\<close>: the names of
  the program are the Indonesian ones.
\<close>

theorem detect_objects_confident_classifier:
  assumes "\<forall>m t. fst (predict m t) = Inr [confident_scores]"
    and "fst (detect_objects cv predict img m) = Inr dets"
  shows "(\<forall>d \<in> set dets. class_name d = ''karbohidrat'' \<and> confidence d = Finite (9 / 10)) \<and>
         get_region_proposals cv img = Inr (map box dets)"
proof -
  from detect_objects_loop [OF assms(2)] obtain regions m' where
    g: "get_region_proposals cv img = Inr regions" and
    l: "detect_loop cv predict img regions m [] = (Inr dets, m')" by blast
  from detect_loop_confident [OF assms(1) l]
  have "dets = map (\<lambda>r. \<lparr>box = r, confidence = Finite (9 / 10),
                           class_name = ''karbohidrat''\<rparr>) regions" by simp
  with g show ?thesis by (auto simp: comp_def)
qed

theorem detect_objects_confident_classifier_witness:
  "fst (detect_objects (test_cv2 two_contours) (counting_predict confident_scores) black_frame 0) =
     Inr [\<lparr>box = (0, 0, 60, 60), confidence = Finite (9 / 10), class_name = ''karbohidrat''\<rparr>] \<and>
   get_region_proposals (test_cv2 two_contours) black_frame = Inr [(0, 0, 60, 60)]"
proof -
  have a: "\<forall>m t. fst (counting_predict confident_scores m t) = Inr [confident_scores]"
    by (simp add: counting_predict_def)
  have b: "fst (detect_objects (test_cv2 two_contours) (counting_predict confident_scores) black_frame 0) =
     Inr [\<lparr>box = (0, 0, 60, 60), confidence = Finite (9 / 10), class_name = ''karbohidrat''\<rparr>]"
    by (simp add: test_detect_confident)
  from detect_objects_confident_classifier [OF a b] b show ?thesis by simp
qed

theorem detect_objects_class_counterexample:
  "fst (detect_objects (test_cv2 two_contours) (counting_predict confident_scores) black_frame 0) =
     Inr [\<lparr>box = (0, 0, 60, 60), confidence = Finite (9 / 10), class_name = ''karbohidrat''\<rparr>] \<and>
   class_name \<lparr>box = (0, 0, 60, 60), confidence = Finite (9 / 10), class_name = ''karbohidrat''\<rparr>
     \<noteq> ''carbohydrate''"
  by (simp add: test_detect_confident)

subsection \<open>The overlay renderer\<close>

lemma draw_calls_fold:
  "a < length hp \<Longrightarrow>
     foldl (\<lambda>hp' call. cv2_draw cv hp' a call) hp calls = hp[a := foldl (draw cv) (hp ! a) calls]"
proof (induction calls arbitrary: hp)
  case Nil
  show ?case by simp
next
  case (Cons c calls)
  from Cons.prems have "a < length (cv2_draw cv hp a c)" by (simp add: cv2_draw_def)
  from Cons.IH [OF this] Cons.prems show ?case by (simp add: cv2_draw_def)
qed

lemma draw_loop_store:
  "a < length hp \<Longrightarrow>
     draw_loop cv hp a dets = hp[a := foldl (draw cv) (hp ! a) (concat (map (box_calls cv) dets))]"
proof (induction dets arbitrary: hp)
  case Nil
  show ?case by simp
next
  case (Cons d dets)
  let ?hp = "hp[a := foldl (draw cv) (hp ! a) (box_calls cv d)]"
  from Cons.prems have "a < length ?hp" by simp
  from Cons.IH [OF this] Cons.prems show ?case by (simp add: draw_calls_fold)
qed

lemma draw_detection_boxes_store:
  "draw_detection_boxes cv hp img dets =
     (length hp, hp @ [foldl (draw cv) (hp ! img) (concat (map (box_calls cv) dets))])"
  by (simp add: draw_detection_boxes_def np_copy_def draw_loop_store)

text \<open>
  Claim C4: \<^verbatim>\<open>draw_detection_boxes\<close> leaves the array of its input frame, and every
  other array of the store, as it was; it returns a newly allocated array, which holds
  the copy of the input with the drawing calls of the detections applied in order.
\<close>

theorem draw_detection_boxes_keeps_input:
  assumes "img < length hp" and "draw_detection_boxes cv hp img dets = (out, hp')"
  shows "hp' ! img = hp ! img \<and> take (length hp) hp' = hp \<and>
         out = length hp \<and> out \<noteq> img \<and> length hp' = Suc (length hp) \<and>
         hp' ! out = foldl (draw cv) (hp ! img) (concat (map (box_calls cv) dets))"
  using assms by (auto simp: draw_detection_boxes_store nth_append)

theorem draw_detection_boxes_keeps_input_witness:
  "(0 :: nat) < length [black_frame] \<and>
   fst (draw_detection_boxes (test_cv2 two_contours) [black_frame] 0
          [\<lparr>box = (0, 0, 60, 60), confidence = Finite (9 / 10), class_name = ''karbohidrat''\<rparr>]) = 1 \<and>
   snd (draw_detection_boxes (test_cv2 two_contours) [black_frame] 0
          [\<lparr>box = (0, 0, 60, 60), confidence = Finite (9 / 10), class_name = ''karbohidrat''\<rparr>]) ! 0
     = black_frame"
proof -
  let ?d = "\<lparr>box = (0, 0, 60, 60), confidence = Finite (9 / 10), class_name = ''karbohidrat''\<rparr>"
  let ?r = "draw_detection_boxes (test_cv2 two_contours) [black_frame] 0 [?d]"
  have a: "(0 :: nat) < length [black_frame]" by simp
  have b: "?r = (fst ?r, snd ?r)" by simp
  from draw_detection_boxes_keeps_input [OF a b] show ?thesis by simp
qed

declare str_nat.simps [simp del]

lemma digit_cases: "d < 10 \<Longrightarrow> d \<in> {0, 1, 2, 3, 4, 5, 6, 7, 8, 9 :: nat}"
  by auto

lemma digit_value: "d < 10 \<Longrightarrow> index_of (digit d) ''0123456789'' = d"
  by (drule digit_cases) (auto simp: digit_def)

lemma digit_is_digit: "d < 10 \<Longrightarrow> digit d \<in> set ''0123456789''"
  by (drule digit_cases) (auto simp: digit_def)

lemma decimal_value_snoc:
  "decimal_value (s @ [c]) = 10 * decimal_value s + index_of c ''0123456789''"
  by (simp add: decimal_value_def)

lemma decimal_value_single: "decimal_value [c] = index_of c ''0123456789''"
  by (simp add: decimal_value_def)

lemma decimal_value_str_nat: "decimal_value (str_nat n) = n"
proof (induction n rule: str_nat.induct)
  case (1 n)
  show ?case
  proof (cases "n < 10")
    case True
    then have "str_nat n = [digit n]" by (subst str_nat.simps) simp
    with True show ?thesis by (simp only: decimal_value_single digit_value)
  next
    case False
    with 1 have ih: "decimal_value (str_nat (n div 10)) = n div 10" by simp
    from False have "str_nat n = str_nat (n div 10) @ [digit (n mod 10)]"
      by (subst str_nat.simps) simp
    moreover have "index_of (digit (n mod 10)) ''0123456789'' = n mod 10"
      by (rule digit_value) simp
    ultimately show ?thesis by (simp only: decimal_value_snoc ih) simp
  qed
qed

lemma str_nat_digits: "set (str_nat n) \<subseteq> set ''0123456789''"
proof (induction n rule: str_nat.induct)
  case (1 n)
  show ?case
  proof (cases "n < 10")
    case True
    then have "str_nat n = [digit n]" by (subst str_nat.simps) simp
    with digit_is_digit [OF True] show ?thesis by simp
  next
    case False
    with 1 have ih: "set (str_nat (n div 10)) \<subseteq> set ''0123456789''" by simp
    from False have "str_nat n = str_nat (n div 10) @ [digit (n mod 10)]"
      by (subst str_nat.simps) simp
    moreover have "digit (n mod 10) \<in> set ''0123456789''" by (rule digit_is_digit) simp
    ultimately show ?thesis using ih by simp
  qed
qed

lemma two_digits_value:
  assumes "m < 100"
  shows "decimal_value [digit (m div 10), digit (m mod 10)] = m"
proof -
  from assms have a: "index_of (digit (m div 10)) ''0123456789'' = m div 10"
    by (intro digit_value) simp
  have b: "index_of (digit (m mod 10)) ''0123456789'' = m mod 10"
    by (intro digit_value) simp
  have "decimal_value [digit (m div 10), digit (m mod 10)] =
          10 * index_of (digit (m div 10)) ''0123456789'' + index_of (digit (m mod 10)) ''0123456789''"
    using decimal_value_snoc [of "[digit (m div 10)]" "digit (m mod 10)"]
    by (simp only: decimal_value_single append_Cons append_Nil)
  with a b show ?thesis by simp
qed

lemma round_half_even_close: "\<bar>of_int (round_half_even x) - x\<bar> \<le> 1 / 2"
proof -
  have "of_int \<lfloor>x\<rfloor> \<le> x" and "x < of_int \<lfloor>x\<rfloor> + 1" by linarith+
  then show ?thesis
    by (auto simp: round_half_even_def Let_def)
qed

lemma round_half_even_nonneg: "0 \<le> x \<Longrightarrow> 0 \<le> round_half_even x"
proof -
  assume "0 \<le> x"
  then have "0 \<le> \<lfloor>x\<rfloor>" by simp
  then show ?thesis by (auto simp: round_half_even_def Let_def)
qed

lemma detection_color_listed:
  "(name, c) \<in> set DETECTION_COLORS \<Longrightarrow> map_of DETECTION_COLORS name = Some c"
  by (rule map_of_is_SomeI) (simp_all add: DETECTION_COLORS_def)

lemma detection_color_absent:
  "name \<notin> fst ` set DETECTION_COLORS \<Longrightarrow> map_of DETECTION_COLORS name = None"
  by (simp add: map_of_eq_None_iff)

lemma rhe_test: "round_half_even 90 = 90"
  by (simp add: round_half_even_def Let_def)

lemma str_nat_0: "str_nat 0 = ''0''"
  by (subst str_nat.simps) (simp add: digit_def)

lemma format_2f_test: "format_2f (Finite (9 / 10)) = ''0.90''"
  by (simp add: format_2f_def rhe_test str_nat_0 digit_def Let_def)

lemma rhe_tie: "round_half_even (25 / 2) = 12"
  by (simp add: round_half_even_def Let_def)

lemma format_2f_tie: "format_2f (Finite (1 / 8)) = ''0.12''"
  by (simp add: format_2f_def rhe_tie str_nat_0 digit_def Let_def)

lemma format_2f_decimal:
  assumes "0 \<le> r"
  shows "\<exists>ip fp. format_2f (Finite r) = ip @ ''.'' @ fp \<and> length fp = 2 \<and>
           set (ip @ fp) \<subseteq> set ''0123456789'' \<and>
           \<bar>real (decimal_value ip) + real (decimal_value fp) / 100 - r\<bar> \<le> 1 / 200"
proof -
  define n where "n = nat (round_half_even (\<bar>r\<bar> * 100))"
  let ?ip = "str_nat (n div 100)"
  let ?fp = "[digit (n mod 100 div 10), digit (n mod 10)]"
  from assms have f: "format_2f (Finite r) = ?ip @ ''.'' @ ?fp"
    by (simp add: format_2f_def n_def Let_def)
  have m: "n mod 100 < 100" by simp
  have "n mod 100 mod 10 = n mod 10" by (simp add: mod_mod_cancel)
  with two_digits_value [OF m] have fp: "decimal_value ?fp = n mod 100" by simp
  have ip: "decimal_value ?ip = n div 100" by (rule decimal_value_str_nat)
  have "real n = real (100 * (n div 100) + n mod 100)" by simp
  then have v: "real (n div 100) + real (n mod 100) / 100 = real n / 100"
    by (simp only: of_nat_add of_nat_mult) simp
  from assms have "0 \<le> round_half_even (r * 100)" by (simp add: round_half_even_nonneg)
  with assms have "real n = of_int (round_half_even (r * 100))" by (simp add: n_def)
  with round_half_even_close [of "r * 100"] have "\<bar>real n - r * 100\<bar> \<le> 1 / 2" by simp
  then have c: "\<bar>real n / 100 - r\<bar> \<le> 1 / 200" by linarith
  have d: "set (?ip @ ?fp) \<subseteq> set ''0123456789''"
    using str_nat_digits [of "n div 100"] digit_is_digit [of "n mod 100 div 10"]
      digit_is_digit [of "n mod 10"] by simp
  have l: "length ?fp = 2" by simp
  from c v fp ip
  have "\<bar>real (decimal_value ?ip) + real (decimal_value ?fp) / 100 - r\<bar> \<le> 1 / 200"
    by (simp only:)
  with f l d show ?thesis by blast
qed

text \<open>
  A class that \<^verbatim>\<open>DETECTION_COLORS\<close> does not list is drawn in the default colour;
  and a confidence half-way between two hundredths is printed as the even one.
\<close>

lemma box_calls_unlisted_class_test:
  "box_calls (test_cv2 two_contours)
     \<lparr>box = (0, 0, 60, 60), confidence = Finite (1 / 8), class_name = ''carbohydrate''\<rparr> =
     [Rectangle (0, 0) (60, 60) (0, 255, 0) 2,
      Rectangle (0, - 21) (162, 0) (0, 255, 0) (- 1),
      PutText ''carbohydrate: 0.12'' (0, - 5) FONT_HERSHEY_SIMPLEX (1 / 2) (255, 255, 255) 2]"
  by (simp add: box_calls_def test_cv2_def format_2f_tie DETECTION_COLORS_def Let_def)

text \<open>
  Claim C9: for a detection with box \<open>(x, y, w, h)\<close> the renderer makes three drawing
  calls: a rectangle of thickness 2 around the box, a filled rectangle (thickness -1) of
  the size of the text above the top-left corner, both in the colour of the class, and
  the text in white (255, 255, 255). The text is the class name, \<^verbatim>\<open>": "\<close> and the
  confidence printed with \<^verbatim>\<open>.2f\<close>. The colour is the one \<^verbatim>\<open>DETECTION_COLORS\<close>
  lists for the class, and (0, 255, 0) for a class it does not list. For a confidence
  that is a non-negative number, the printed confidence is a decimal with exactly two
  digits after the point, within half a hundredth of the confidence. The image returned
  is the copy of the input with these calls applied, detection after detection.
\<close>

theorem box_calls_label_and_color:
  assumes "box d = (x, y, w, h)"
    and "getTextSize cv (class_name d @ '': '' @ format_2f (confidence d))
           FONT_HERSHEY_SIMPLEX (1 / 2) 2 = ((lw, lh), bl)"
  shows "(\<exists>col. box_calls cv d =
            [Rectangle (x, y) (x + w, y + h) col 2,
             Rectangle (x, y - lh - 10) (x + lw, y) col (- 1),
             PutText (class_name d @ '': '' @ format_2f (confidence d)) (x, y - 5)
               FONT_HERSHEY_SIMPLEX (1 / 2) (255, 255, 255) 2] \<and>
            (\<forall>c. (class_name d, c) \<in> set DETECTION_COLORS \<longrightarrow> col = c) \<and>
            (class_name d \<notin> fst ` set DETECTION_COLORS \<longrightarrow> col = (0, 255, 0))) \<and>
         (\<forall>r. confidence d = Finite r \<and> 0 \<le> r \<longrightarrow>
            (\<exists>ip fp. format_2f (confidence d) = ip @ ''.'' @ fp \<and> length fp = 2 \<and>
               set (ip @ fp) \<subseteq> set ''0123456789'' \<and>
               \<bar>real (decimal_value ip) + real (decimal_value fp) / 100 - r\<bar> \<le> 1 / 200)) \<and>
         snd (draw_detection_boxes cv hp img dets) ! fst (draw_detection_boxes cv hp img dets) =
           foldl (draw cv) (hp ! img) (concat (map (box_calls cv) dets))"
proof (intro conjI allI impI)
  let ?col = "case map_of DETECTION_COLORS (class_name d) of Some c \<Rightarrow> c | None \<Rightarrow> (0, 255, 0)"
  have "box_calls cv d =
            [Rectangle (x, y) (x + w, y + h) ?col 2,
             Rectangle (x, y - lh - 10) (x + lw, y) ?col (- 1),
             PutText (class_name d @ '': '' @ format_2f (confidence d)) (x, y - 5)
               FONT_HERSHEY_SIMPLEX (1 / 2) (255, 255, 255) 2]"
    using assms by (simp add: box_calls_def Let_def)
  moreover have "\<forall>c. (class_name d, c) \<in> set DETECTION_COLORS \<longrightarrow> ?col = c"
    by (auto simp: detection_color_listed)
  moreover have "class_name d \<notin> fst ` set DETECTION_COLORS \<longrightarrow> ?col = (0, 255, 0)"
    by (auto simp: detection_color_absent)
  ultimately show "\<exists>col. box_calls cv d =
            [Rectangle (x, y) (x + w, y + h) col 2,
             Rectangle (x, y - lh - 10) (x + lw, y) col (- 1),
             PutText (class_name d @ '': '' @ format_2f (confidence d)) (x, y - 5)
               FONT_HERSHEY_SIMPLEX (1 / 2) (255, 255, 255) 2] \<and>
            (\<forall>c. (class_name d, c) \<in> set DETECTION_COLORS \<longrightarrow> col = c) \<and>
            (class_name d \<notin> fst ` set DETECTION_COLORS \<longrightarrow> col = (0, 255, 0))"
    by blast
next
  fix r
  assume "confidence d = Finite r \<and> 0 \<le> r"
  then show "\<exists>ip fp. format_2f (confidence d) = ip @ ''.'' @ fp \<and> length fp = 2 \<and>
               set (ip @ fp) \<subseteq> set ''0123456789'' \<and>
               \<bar>real (decimal_value ip) + real (decimal_value fp) / 100 - r\<bar> \<le> 1 / 200"
    using format_2f_decimal [of r] by simp
next
  show "snd (draw_detection_boxes cv hp img dets) ! fst (draw_detection_boxes cv hp img dets) =
           foldl (draw cv) (hp ! img) (concat (map (box_calls cv) dets))"
    by (simp add: draw_detection_boxes_store)
qed

theorem box_calls_label_and_color_witness:
  "box_calls (test_cv2 two_contours)
     \<lparr>box = (0, 0, 60, 60), confidence = Finite (9 / 10), class_name = ''karbohidrat''\<rparr> =
     [Rectangle (0, 0) (60, 60) (255, 0, 0) 2,
      Rectangle (0, - 21) (153, 0) (255, 0, 0) (- 1),
      PutText ''karbohidrat: 0.90'' (0, - 5) FONT_HERSHEY_SIMPLEX (1 / 2) (255, 255, 255) 2]"
proof -
  let ?d = "\<lparr>box = (0, 0, 60, 60), confidence = Finite (9 / 10), class_name = ''karbohidrat''\<rparr>"
  have a: "box ?d = (0, 0, 60, 60)" by simp
  have b: "getTextSize (test_cv2 two_contours) (class_name ?d @ '': '' @ format_2f (confidence ?d))
             FONT_HERSHEY_SIMPLEX (1 / 2) 2 = ((153, 11), 4)"
    by (simp add: test_cv2_def format_2f_test)
  have c: "(class_name ?d, (255, 0, 0)) \<in> set DETECTION_COLORS"
    by (simp add: DETECTION_COLORS_def)
  from box_calls_label_and_color [OF a b] obtain col where
    "box_calls (test_cv2 two_contours) ?d =
       [Rectangle (0, 0) (0 + 60, 0 + 60) col 2,
        Rectangle (0, 0 - 11 - 10) (0 + 153, 0) col (- 1),
        PutText (class_name ?d @ '': '' @ format_2f (confidence ?d)) (0, 0 - 5)
          FONT_HERSHEY_SIMPLEX (1 / 2) (255, 255, 255) 2]"
    and "\<forall>c. (class_name ?d, c) \<in> set DETECTION_COLORS \<longrightarrow> col = c"
    by blast
  with c show ?thesis by (simp add: format_2f_test)
qed

subsection \<open>Loading the model\<close>

lemma load_detection_model_fails:
  assumes "load_model ''./model/model.h5'' = Inl e"
  shows "load_detection_model load_model = ([StError (''Error loading model: '' @ str_exc e)], None)"
  using assms by (simp add: load_detection_model_def)

lemma live_camera_page_load_fails:
  assumes "load_model ''./model/model.h5'' = Inl e"
  shows "live_camera_page cv predict load_model None run camera =
           Some (None, Some ([StError (''Error loading model: '' @ str_exc e)], None),
                 [StTitle ''Live Camera Detection'',
                  StError (''Error loading model: '' @ str_exc e),
                  StError ''Failed to load model. Please check the model file.''])"
  using assms
  by (simp add: live_camera_page_def cached_load_detection_model_def load_detection_model_def)

lemma live_camera_page_cached_failure:
  "live_camera_page cv predict load_model (Some (evs, None)) run camera =
     Some (None, Some (evs, None),
           [StTitle ''Live Camera Detection''] @ evs @
           [StError ''Failed to load model. Please check the model file.''])"
  by (simp add: live_camera_page_def cached_load_detection_model_def)

lemma live_camera_session_disabled:
  "live_camera_session cv predict (Some (evs, None)) runs =
     Some (concat (replicate (length runs)
             ([StTitle ''Live Camera Detection''] @ evs @
              [StError ''Failed to load model. Please check the model file.''])))"
proof (induction runs)
  case Nil
  show ?case by simp
next
  case (Cons r runs)
  obtain load_model run camera where r: "r = (load_model, run, camera)" by (cases r) auto
  show ?case by (simp add: r live_camera_page_cached_failure Cons.IH)
qed

text \<open>
  Claim C6, as the program has it: when \<^verbatim>\<open>load_model\<close> raises,
  \<^verbatim>\<open>load_detection_model\<close> raises nothing: it shows the message of the exception
  and returns \<^verbatim>\<open>None\<close>. The page then shows its own error and ends without an
  exception, without opening the camera and without a call of \<^verbatim>\<open>detect_objects\<close>.
  The \<^verbatim>\<open>None\<close> stays in the cache: every later run of the page in the process
  shows the same two errors again and nothing else, whatever the file system, the
  checkbox and the camera are then.
\<close>

theorem load_failure_disables_detection:
  assumes "load_model ''./model/model.h5'' = Inl e"
  shows "load_detection_model load_model =
           ([StError (''Error loading model: '' @ str_exc e)], None) \<and>
         live_camera_page cv predict load_model None run camera =
           Some (None, Some ([StError (''Error loading model: '' @ str_exc e)], None),
                 [StTitle ''Live Camera Detection'',
                  StError (''Error loading model: '' @ str_exc e),
                  StError ''Failed to load model. Please check the model file.'']) \<and>
         live_camera_session cv predict None ((load_model, run, camera) # runs) =
           Some (concat (replicate (Suc (length runs))
                   [StTitle ''Live Camera Detection'',
                    StError (''Error loading model: '' @ str_exc e),
                    StError ''Failed to load model. Please check the model file.'']))"
  using assms
  by (simp add: load_detection_model_fails live_camera_page_load_fails
        live_camera_session_disabled)

theorem load_failure_disables_detection_witness:
  "live_camera_session (test_cv2 two_contours) (counting_predict confident_scores) None
     [(\<lambda>path. Inl (OSError ''No such file''), True, \<lambda>n. Some black_frame),
      (\<lambda>path. Inr 0, True, \<lambda>n. Some black_frame)] =
   Some [StTitle ''Live Camera Detection'',
         StError ''Error loading model: No such file'',
         StError ''Failed to load model. Please check the model file.'',
         StTitle ''Live Camera Detection'',
         StError ''Error loading model: No such file'',
         StError ''Failed to load model. Please check the model file.'']"
proof -
  have "(\<lambda>path :: string. Inl (OSError ''No such file'') :: py_error + nat) ''./model/model.h5'' =
          Inl (OSError ''No such file'')"
    by simp
  from load_failure_disables_detection [OF this, of "test_cv2 two_contours"
      "counting_predict confident_scores" True "\<lambda>n. Some black_frame"
      "[(\<lambda>path. Inr 0, True, \<lambda>n. Some black_frame)]"]
  show ?thesis by (simp del: live_camera_session.simps)
qed

theorem load_detection_model_returns_counterexample:
  "load_detection_model (\<lambda>path. Inl (OSError ''No such file'') :: py_error + nat) =
     ([StError ''Error loading model: No such file''], None) \<and>
   live_camera_page (test_cv2 two_contours) (counting_predict confident_scores)
     (\<lambda>path. Inl (OSError ''No such file'')) None True (\<lambda>n. Some black_frame) =
     Some (None, Some ([StError ''Error loading model: No such file''], None),
           [StTitle ''Live Camera Detection'',
            StError ''Error loading model: No such file'',
            StError ''Failed to load model. Please check the model file.''])"
  by (simp add: load_detection_model_def live_camera_page_def cached_load_detection_model_def)

subsection \<open>The capture loop\<close>

lemma capture_loop_not_running:
  "capture_loop cv predict camera False n model tr = Some (None, model, tr)"
  by (subst capture_loop.simps) simp

lemma capture_loop_read_fails:
  assumes "camera n = None"
  shows "capture_loop cv predict camera True n model tr =
           Some (None, model, tr @ [CameraRead, StError ''Failed to access camera''])"
  using assms by (subst capture_loop.simps) simp

lemma capture_loop_events_raw:
  assumes "capture_loop cv predict camera run n model tr = Some y"
  shows "\<exists>body. snd (snd y) = tr @ body \<and> CameraRelease \<notin> set body \<and>
           VideoCapture 0 \<notin> set body \<and>
           (fst y = None \<longrightarrow>
              (\<not> run \<and> body = []) \<or>
              (run \<and> (\<exists>pre. body = pre @ [CameraRead, StError ''Failed to access camera''])))"
  using assms
proof (induction rule: capture_loop.raw_induct [rotated 1, consumes 1])
  case (1 loop cv predict camera run n model tr y)
  show ?case
  proof (cases run)
    case False
    with "1"(2) show ?thesis by auto
  next
    case True
    show ?thesis
    proof (cases "camera n")
      case None
      with True "1"(2) show ?thesis by auto
    next
      case (Some frame)
      obtain res m1 where d: "detect_objects cv predict frame model = (res, m1)"
        by (cases "detect_objects cv predict frame model")
      show ?thesis
      proof (cases res)
        case (Inl e)
        with True Some d "1"(2) show ?thesis by auto
      next
        case (Inr detections)
        obtain out hp where dr: "draw_detection_boxes cv [frame] 0 detections = (out, hp)"
          by (cases "draw_detection_boxes cv [frame] 0 detections")
        show ?thesis
        proof (cases "cvtColor_BGR2RGB cv (hp ! out)")
          case (Inl e)
          with True Some d Inr dr "1"(2) show ?thesis by auto
        next
          case rgb: (Inr frame_rgb)
          let ?evs = "[CameraRead, DetectObjects frame, ShowFrame frame_rgb, TimeSleep (1 / 10)]"
          from True Some d Inr dr rgb "1"(2)
          have "loop cv predict camera run (Suc n) m1 (tr @ ?evs) = Some y"
            by simp
          from "1"(1) [OF this] obtain body where
            b: "snd (snd y) = (tr @ ?evs) @ body" "CameraRelease \<notin> set body"
              "VideoCapture 0 \<notin> set body"
              "fst y = None \<longrightarrow> (\<not> run \<and> body = []) \<or>
                 (run \<and> (\<exists>pre. body = pre @ [CameraRead, StError ''Failed to access camera'']))"
            by (elim exE conjE) (rule that)
          have "fst y = None \<longrightarrow>
                  (\<exists>pre. ?evs @ body = pre @ [CameraRead, StError ''Failed to access camera''])"
          proof
            assume "fst y = None"
            with b(4) True obtain pre where
              "body = pre @ [CameraRead, StError ''Failed to access camera'']" by blast
            then have "?evs @ body = (?evs @ pre) @ [CameraRead, StError ''Failed to access camera'']"
              by simp
            then show "\<exists>pre. ?evs @ body = pre @ [CameraRead, StError ''Failed to access camera'']"
              by blast
          qed
          with b(1-3) True show ?thesis
            by (intro exI [of _ "?evs @ body"]) simp
        qed
      qed
    qed
  qed
qed

lemma capture_loop_events:
  assumes "capture_loop cv predict camera run n model tr = Some (exc, model', tr')"
  shows "\<exists>body. tr' = tr @ body \<and> CameraRelease \<notin> set body \<and> VideoCapture 0 \<notin> set body \<and>
           (exc = None \<longrightarrow>
              (\<not> run \<and> body = []) \<or>
              (run \<and> (\<exists>pre. body = pre @ [CameraRead, StError ''Failed to access camera''])))"
  using capture_loop_events_raw [OF assms] by simp

lemma capture_loop_terminates:
  "camera (n + j) = None \<Longrightarrow> capture_loop cv predict camera run n model tr \<noteq> None"
proof (induction j arbitrary: n model tr)
  case 0
  then show ?case by (subst capture_loop.simps) simp
next
  case (Suc j)
  then have "camera (Suc n + j) = None" by simp
  then have "capture_loop cv predict camera run (Suc n) model' tr' \<noteq> None" for model' tr'
    by (rule Suc.IH)
  then show ?case
    by (subst capture_loop.simps) (auto split: option.splits sum.splits prod.splits)
qed

text \<open>
  The runs that end without an exception: with the model loaded, such a run has opened
  the camera once and released it once, as its last event, and it ended because the
  checkbox was off (no read at all) or because a read failed. If the first read fails,
  the run shows the error, calls \<^verbatim>\<open>detect_objects\<close> never, and releases the camera.
  With the checkbox on, the run ends whenever some read of the camera fails; the loop
  never reads the checkbox again.
\<close>

lemma live_camera_normal_exit_releases:
  assumes "cached_load_detection_model cache load_model = (evs, Some model, cache1)"
  shows "(\<forall>cache' tr. live_camera_page cv predict load_model cache run camera = Some (None, cache', tr) \<longrightarrow>
            (\<exists>body. tr = [StTitle ''Live Camera Detection''] @ evs @
                        [StCheckbox ''Start Camera'', StImagePlaceholder, VideoCapture 0] @
                        body @ [CameraRelease] \<and>
                    CameraRelease \<notin> set body \<and> VideoCapture 0 \<notin> set body \<and>
                    ((\<not> run \<and> body = []) \<or>
                     (run \<and> (\<exists>pre. body = pre @ [CameraRead, StError ''Failed to access camera''])))))
       \<and> (camera 0 = None \<longrightarrow>
            live_camera_page cv predict load_model cache True camera =
              Some (None, Some (evs, Some model),
                    [StTitle ''Live Camera Detection''] @ evs @
                    [StCheckbox ''Start Camera'', StImagePlaceholder, VideoCapture 0,
                     CameraRead, StError ''Failed to access camera'', CameraRelease]))
       \<and> live_camera_page cv predict load_model cache False camera =
              Some (None, Some (evs, Some model),
                    [StTitle ''Live Camera Detection''] @ evs @
                    [StCheckbox ''Start Camera'', StImagePlaceholder, VideoCapture 0,
                     CameraRelease])
       \<and> ((\<exists>k. camera k = None) \<longrightarrow>
            live_camera_page cv predict load_model cache run camera \<noteq> None)"
proof (intro conjI allI impI)
  fix cache' tr
  assume p: "live_camera_page cv predict load_model cache run camera = Some (None, cache', tr)"
  let ?tr0 = "[StTitle ''Live Camera Detection''] @ evs @
               [StCheckbox ''Start Camera'', StImagePlaceholder, VideoCapture 0]"
  from p assms obtain m1 tr1 where
    l: "capture_loop cv predict camera run 0 model ?tr0 = Some (None, m1, tr1)" and
    tr: "tr = tr1 @ [CameraRelease]"
    by (auto simp: live_camera_page_def split: option.splits prod.splits)
  from capture_loop_events [OF l] obtain body where
    "tr1 = ?tr0 @ body" "CameraRelease \<notin> set body" "VideoCapture 0 \<notin> set body"
    "(\<not> run \<and> body = []) \<or>
     (run \<and> (\<exists>pre. body = pre @ [CameraRead, StError ''Failed to access camera'']))"
    by blast
  with tr show "\<exists>body. tr = [StTitle ''Live Camera Detection''] @ evs @
                        [StCheckbox ''Start Camera'', StImagePlaceholder, VideoCapture 0] @
                        body @ [CameraRelease] \<and>
                    CameraRelease \<notin> set body \<and> VideoCapture 0 \<notin> set body \<and>
                    ((\<not> run \<and> body = []) \<or>
                     (run \<and> (\<exists>pre. body = pre @ [CameraRead, StError ''Failed to access camera''])))"
    by (intro exI [of _ body]) simp
next
  assume "camera 0 = None"
  with assms show "live_camera_page cv predict load_model cache True camera =
              Some (None, Some (evs, Some model),
                    [StTitle ''Live Camera Detection''] @ evs @
                    [StCheckbox ''Start Camera'', StImagePlaceholder, VideoCapture 0,
                     CameraRead, StError ''Failed to access camera'', CameraRelease])"
    by (simp add: live_camera_page_def capture_loop_read_fails)
next
  from assms show "live_camera_page cv predict load_model cache False camera =
              Some (None, Some (evs, Some model),
                    [StTitle ''Live Camera Detection''] @ evs @
                    [StCheckbox ''Start Camera'', StImagePlaceholder, VideoCapture 0,
                     CameraRelease])"
    by (simp add: live_camera_page_def capture_loop_not_running)
next
  assume "\<exists>k. camera k = None"
  then obtain k where "camera (0 + k) = None" by auto
  from capture_loop_terminates [where camera = camera and n = 0 and j = k, OF this]
  show "live_camera_page cv predict load_model cache run camera \<noteq> None"
    using assms by (auto simp: live_camera_page_def split: option.splits prod.splits)
qed

lemma live_camera_normal_exit_test:
  "live_camera_page (test_cv2 two_contours) (counting_predict confident_scores) (\<lambda>path. Inr 0)
     (Some ([], Some 0)) True (\<lambda>n. None) =
     Some (None, Some ([], Some 0),
           [StTitle ''Live Camera Detection'', StCheckbox ''Start Camera'', StImagePlaceholder,
            VideoCapture 0, CameraRead, StError ''Failed to access camera'', CameraRelease]) \<and>
   live_camera_page (test_cv2 two_contours) (counting_predict confident_scores) (\<lambda>path. Inr 0)
     (Some ([], Some 0)) False (\<lambda>n. None) =
     Some (None, Some ([], Some 0),
           [StTitle ''Live Camera Detection'', StCheckbox ''Start Camera'', StImagePlaceholder,
            VideoCapture 0, CameraRelease])"
proof -
  have a: "cached_load_detection_model (Some ([], Some (0 :: nat))) (\<lambda>path. Inr 0) =
             ([], Some 0, Some ([], Some 0))"
    by (simp add: cached_load_detection_model_def)
  from live_camera_normal_exit_releases [OF a, where cv = "test_cv2 two_contours"
      and predict = "counting_predict confident_scores" and camera = "\<lambda>n. None"]
  show ?thesis by simp
qed

text \<open>A run with a camera that gives one frame and then fails.\<close>

lemma test_cvtColor_BGR2RGB: "cvtColor_BGR2RGB (test_cv2 cs) img = Inr (map (map rev) img)"
  by (simp add: test_cv2_def)

lemma live_camera_one_frame_test:
  "\<exists>shown. live_camera_page (test_cv2 two_contours) (counting_predict confident_scores)
      (\<lambda>path. Inr 0) None True (\<lambda>n. if n = 0 then Some black_frame else None) =
     Some (None, Some ([], Some 1),
           [StTitle ''Live Camera Detection'', StCheckbox ''Start Camera'', StImagePlaceholder,
            VideoCapture 0, CameraRead, DetectObjects black_frame, ShowFrame shown,
            TimeSleep (1 / 10), CameraRead, StError ''Failed to access camera'', CameraRelease])"
proof -
  let ?d = "\<lparr>box = (0, 0, 60, 60), confidence = Finite (9 / 10), class_name = ''karbohidrat''\<rparr>"
  let ?cam = "\<lambda>n :: nat. if n = 0 then Some black_frame else None"
  obtain out hp where
    dr: "draw_detection_boxes (test_cv2 two_contours) [black_frame] 0 [?d] = (out, hp)"
    by (cases "draw_detection_boxes (test_cv2 two_contours) [black_frame] 0 [?d]")
  let ?tr0 = "[StTitle ''Live Camera Detection'', StCheckbox ''Start Camera'', StImagePlaceholder,
               VideoCapture 0]"
  let ?tr1 = "?tr0 @ [CameraRead, DetectObjects black_frame, ShowFrame (map (map rev) (hp ! out)),
                      TimeSleep (1 / 10)]"
  have "?cam 1 = None" by simp
  then have l1: "capture_loop (test_cv2 two_contours) (counting_predict confident_scores) ?cam True 1 1 ?tr1 =
               Some (None, 1, ?tr1 @ [CameraRead, StError ''Failed to access camera''])"
    by (rule capture_loop_read_fails)
  have "capture_loop (test_cv2 two_contours) (counting_predict confident_scores) ?cam True 0 0 ?tr0 =
          capture_loop (test_cv2 two_contours) (counting_predict confident_scores) ?cam True 1 1 ?tr1"
    by (subst capture_loop.simps)
       (simp add: test_detect_confident dr test_cvtColor_BGR2RGB)
  with l1 have "capture_loop (test_cv2 two_contours) (counting_predict confident_scores) ?cam True 0 0 ?tr0 =
               Some (None, 1, ?tr1 @ [CameraRead, StError ''Failed to access camera''])"
    by (simp only:)
  then have "live_camera_page (test_cv2 two_contours) (counting_predict confident_scores)
      (\<lambda>path. Inr 0) None True ?cam =
     Some (None, Some ([], Some 1), ?tr1 @ [CameraRead, StError ''Failed to access camera'', CameraRelease])"
    by (simp add: live_camera_page_def cached_load_detection_model_def load_detection_model_def)
  then show ?thesis by auto
qed

text \<open>
  An exception of the body of the loop leaves the loop and the script: the run ends
  with that exception and without the release, which is the statement after the loop
  (there is no \<^verbatim>\<open>try\<close> ... \<^verbatim>\<open>finally\<close> around the loop).
\<close>

lemma live_camera_exception_skips_release:
  assumes "cached_load_detection_model cache load_model = (evs, Some model, cache1)"
    and "camera 0 = Some frame"
    and "detect_objects cv predict frame model = (Inl e, model')"
  shows "live_camera_page cv predict load_model cache True camera =
           Some (Some e, Some (evs, Some model'),
                 [StTitle ''Live Camera Detection''] @ evs @
                 [StCheckbox ''Start Camera'', StImagePlaceholder, VideoCapture 0,
                  CameraRead, DetectObjects frame])"
  using assms
  by (simp add: live_camera_page_def) (subst capture_loop.simps, simp)

lemma test_detect_raising:
  "detect_objects (test_cv2 two_contours) raising_predict black_frame 0 =
     (Inl (ValueError ''Input 0 is incompatible with the layer''), 1)"
proof -
  obtain t where
    "preprocess_frame (test_cv2 two_contours) (crop black_frame (0, 0, 60, 60)) (224, 224) = Inr t"
    using test_preprocess by blast
  then show ?thesis
    by (simp add: detect_objects_def test_regions detect_region_def raising_predict_def)
qed

text \<open>
  Claim C7 does not hold of the program: the camera is released on the two paths that
  reach the statement after the loop (the checkbox off, a failed read), not on every
  path out of the loop. Here the model is loaded, the checkbox is on, the camera gives a
  frame and \<^verbatim>\<open>predict\<close> raises on the first region: the run ends with the exception,
  after the camera was opened and read, and \<^verbatim>\<open>camera.release()\<close> is not among its
  events.
\<close>

theorem live_camera_exception_leaves_camera_open:
  "live_camera_page (test_cv2 two_contours) raising_predict (\<lambda>path. Inr 0) None True
     (\<lambda>n. Some black_frame) =
     Some (Some (ValueError ''Input 0 is incompatible with the layer''), Some ([], Some 1),
           [StTitle ''Live Camera Detection'', StCheckbox ''Start Camera'', StImagePlaceholder,
            VideoCapture 0, CameraRead, DetectObjects black_frame]) \<and>
   CameraRelease \<notin> set [StTitle ''Live Camera Detection'', StCheckbox ''Start Camera'',
                          StImagePlaceholder, VideoCapture 0, CameraRead,
                          DetectObjects black_frame]"
proof -
  have a: "cached_load_detection_model None (\<lambda>path. Inr (0 :: nat)) = ([], Some 0, Some ([], Some 0))"
    by (simp add: cached_load_detection_model_def load_detection_model_def)
  have b: "(\<lambda>n :: nat. Some black_frame) 0 = Some black_frame" by simp
  from live_camera_exception_skips_release [OF a b test_detect_raising]
  show ?thesis by simp
qed

end
